theory Spec2Isabelle
  imports Complex_Main
begin

section \<open>Multi-tube fly detector: data model\<close>

text \<open>
  The embedding follows \<^verbatim>\<open>video_player/multi_tube_detector.py\<close> (class
  \<^verbatim>\<open>MultiTubeFlyDetector\<close>) and the consensus and manual-correction methods of
  \<^verbatim>\<open>video_player/multi_tube_ui.py\<close>. Python exceptions are values of type
  \<open>error\<close>; a method that can raise returns \<open>error + result\<close>.
\<close>

datatype error = TypeError | IndexError | ZeroDivisionError | CvError

type_synonym region = "int \<times> int \<times> int \<times> int"

type_synonym fly = "int \<times> int \<times> int"

text \<open>
  One contour as the OpenCV calls of the source see it: \<^verbatim>\<open>cv2.contourArea\<close> and the
  three moments read from \<^verbatim>\<open>cv2.moments\<close>. The floating-point values are modelled
  as rationals.
\<close>

datatype contour = Contour (c_area: rat) (c_m00: rat) (c_m10: rat) (c_m01: rat)

record 'img MultiTubeFlyDetector =
  tube_count :: int
  tube_regions :: "region option list"
  genotype_names :: "string list"
  background_frame :: "'img option"
  threshold :: int
  min_area :: int
  max_area :: int
  fly_positions :: "(int \<times> int) option list"
  climbing_heights :: "int list"
  max_heights :: "int list"
  avg_heights :: "rat list"
  detection_history :: "int list list"
  detection_results :: "fly list option list option"

text \<open>
  \<open>detection_results\<close> is the attribute the user interface attaches to the detector;
  \<open>None\<close> stands for the attribute being absent (\<^verbatim>\<open>hasattr\<close> is false).
\<close>

subsection \<open>Python primitives used by the source\<close>

text \<open>Decimal rendering of a natural number, as an f-string prints it.\<close>

definition digit_char :: "nat \<Rightarrow> char" where
  "digit_char n = char_of (48 + n)"

fun decimal :: "nat \<Rightarrow> string" where
  "decimal n = (if n < 10 then [digit_char n] else decimal (n div 10) @ [digit_char (n mod 10)])"

declare decimal.simps [simp del]

text \<open>
  The default label \<^verbatim>\<open>f"..{i+1}"\<close>: the two CJK characters of the source literal in
  UTF-8 (six bytes), followed by the decimal tube number.
\<close>

definition default_name :: "nat \<Rightarrow> string" where
  "default_name i =
     [CHR 0xE7, CHR 0xAE, CHR 0xA1, CHR 0xE5, CHR 0xAD, CHR 0x90] @ decimal (i + 1)"

text \<open>Index normalisation of a Python list subscript: negative indices count from the end.\<close>

definition py_index :: "'a list \<Rightarrow> int \<Rightarrow> nat option" where
  "py_index xs i =
     (if 0 \<le> i \<and> i < int (length xs) then Some (nat i)
      else if i < 0 \<and> - int (length xs) \<le> i then Some (nat (int (length xs) + i))
      else None)"

text \<open>\<^verbatim>\<open>int(q)\<close> on a float truncates towards zero.\<close>

definition py_trunc :: "rat \<Rightarrow> int" where
  "py_trunc q = (if 0 \<le> q then \<lfloor>q\<rfloor> else \<lceil>q\<rceil>)"

text \<open>\<^verbatim>\<open>max(xs)\<close> on a non-empty list of integers.\<close>

definition py_max :: "int list \<Rightarrow> int" where
  "py_max xs = fold max (tl xs) (hd xs)"

text \<open>
  \<^verbatim>\<open>list.sort(key=f, reverse=True)\<close>: CPython reverses the list, sorts it stably in
  ascending key order and reverses it again, so equal keys keep their original order.
\<close>

definition py_sort_desc :: "('a \<Rightarrow> 'k::linorder) \<Rightarrow> 'a list \<Rightarrow> 'a list" where
  "py_sort_desc f xs = rev (sort_key f (rev xs))"

subsection \<open>Construction and tube count\<close>

definition init :: "int \<Rightarrow> 'img MultiTubeFlyDetector" where
  "init n =
     \<lparr> tube_count = n,
       tube_regions = replicate (nat n) None,
       genotype_names = map default_name [0..<nat n],
       background_frame = None,
       threshold = 15,
       min_area = 40,
       max_area = 500,
       fly_positions = replicate (nat n) None,
       climbing_heights = replicate (nat n) 0,
       max_heights = replicate (nat n) 0,
       avg_heights = replicate (nat n) 0,
       detection_history = replicate (nat n) [],
       detection_results = None \<rparr>"

text \<open>
  \<^verbatim>\<open>set_tube_count\<close> has no guard and no raising statement: \<^verbatim>\<open>[None] * n\<close> and
  \<^verbatim>\<open>range(n)\<close> are empty for \<open>n \<le> 0\<close>. It is therefore a total function.
\<close>

definition set_tube_count :: "int \<Rightarrow> 'img MultiTubeFlyDetector \<Rightarrow> 'img MultiTubeFlyDetector" where
  "set_tube_count n d =
     d\<lparr> tube_count := n,
        tube_regions := replicate (nat n) None,
        genotype_names := map default_name [0..<nat n],
        fly_positions := replicate (nat n) None,
        climbing_heights := replicate (nat n) 0,
        max_heights := replicate (nat n) 0,
        avg_heights := replicate (nat n) 0,
        detection_history := replicate (nat n) [] \<rparr>"

text \<open>
  The state the class maintains through its own methods: every per-tube list has
  \<^verbatim>\<open>max(0, tube_count)\<close> entries.
\<close>

definition well_formed :: "'img MultiTubeFlyDetector \<Rightarrow> bool" where
  "well_formed d \<longleftrightarrow>
     length (tube_regions d) = nat (tube_count d) \<and>
     length (genotype_names d) = nat (tube_count d) \<and>
     length (fly_positions d) = nat (tube_count d) \<and>
     length (climbing_heights d) = nat (tube_count d) \<and>
     length (max_heights d) = nat (tube_count d) \<and>
     length (avg_heights d) = nat (tube_count d) \<and>
     length (detection_history d) = nat (tube_count d)"

subsection \<open>Setters, getters and reset\<close>

text \<open>
  The guard \<^verbatim>\<open>0 <= tube_index < self.tube_count\<close> has no \<^verbatim>\<open>else\<close> branch: outside
  the range the setters return without doing anything. Inside the range the list
  assignment raises \<^verbatim>\<open>IndexError\<close> when the list is shorter than \<open>tube_count\<close>.
\<close>

definition set_tube_region ::
  "int \<Rightarrow> region option \<Rightarrow> 'img MultiTubeFlyDetector \<Rightarrow> error + 'img MultiTubeFlyDetector" where
  "set_tube_region tube_index region d =
     (if 0 \<le> tube_index \<and> tube_index < tube_count d then
        (if nat tube_index < length (tube_regions d)
         then Inr (d\<lparr>tube_regions := (tube_regions d)[nat tube_index := region]\<rparr>)
         else Inl IndexError)
      else Inr d)"

definition set_genotype_name ::
  "int \<Rightarrow> string \<Rightarrow> 'img MultiTubeFlyDetector \<Rightarrow> error + 'img MultiTubeFlyDetector" where
  "set_genotype_name tube_index name d =
     (if 0 \<le> tube_index \<and> tube_index < tube_count d then
        (if nat tube_index < length (genotype_names d)
         then Inr (d\<lparr>genotype_names := (genotype_names d)[nat tube_index := name]\<rparr>)
         else Inl IndexError)
      else Inr d)"

definition set_background ::
  "'img option \<Rightarrow> 'img MultiTubeFlyDetector \<Rightarrow> 'img MultiTubeFlyDetector" where
  "set_background bg d = d\<lparr>background_frame := bg\<rparr>"

definition get_max_height :: "int \<Rightarrow> 'img MultiTubeFlyDetector \<Rightarrow> error + int" where
  "get_max_height tube_index d =
     (if 0 \<le> tube_index \<and> tube_index < tube_count d then
        (if nat tube_index < length (max_heights d)
         then Inr (max_heights d ! nat tube_index) else Inl IndexError)
      else Inr 0)"

definition get_avg_height :: "int \<Rightarrow> 'img MultiTubeFlyDetector \<Rightarrow> error + rat" where
  "get_avg_height tube_index d =
     (if 0 \<le> tube_index \<and> tube_index < tube_count d then
        (if nat tube_index < length (avg_heights d)
         then Inr (avg_heights d ! nat tube_index) else Inl IndexError)
      else Inr 0)"

definition get_current_height :: "int \<Rightarrow> 'img MultiTubeFlyDetector \<Rightarrow> error + int" where
  "get_current_height tube_index d =
     (if 0 \<le> tube_index \<and> tube_index < tube_count d then
        (if nat tube_index < length (climbing_heights d)
         then Inr (climbing_heights d ! nat tube_index) else Inl IndexError)
      else Inr 0)"

definition get_tube_height :: "int \<Rightarrow> 'img MultiTubeFlyDetector \<Rightarrow> error + int" where
  "get_tube_height tube_index d =
     (if 0 \<le> tube_index \<and> tube_index < tube_count d then
        (if nat tube_index < length (tube_regions d) then
           (case tube_regions d ! nat tube_index of
              None \<Rightarrow> Inr 0
            | Some (x, y, w, h) \<Rightarrow> Inr h)
         else Inl IndexError)
      else Inr 0)"

definition reset_data :: "'img MultiTubeFlyDetector \<Rightarrow> 'img MultiTubeFlyDetector" where
  "reset_data d =
     d\<lparr> fly_positions := replicate (nat (tube_count d)) None,
        climbing_heights := replicate (nat (tube_count d)) 0,
        max_heights := replicate (nat (tube_count d)) 0,
        avg_heights := replicate (nat (tube_count d)) 0,
        detection_history := replicate (nat (tube_count d)) [],
        detection_results :=
          (case detection_results d of
             None \<Rightarrow> None
           | Some r \<Rightarrow> Some (replicate (nat (tube_count d)) None)) \<rparr>"

subsection \<open>Detection pass\<close>

text \<open>
  The OpenCV part of a pass is a parameter \<open>cv frame background region threshold\<close>: it
  stands for cropping both images to the region, \<^verbatim>\<open>absdiff\<close>, grey conversion,
  thresholding, opening, closing and \<^verbatim>\<open>findContours\<close>, and returns the contours in
  discovery order (or the error OpenCV raises). The area filter, the centroid and the
  height computation are the source's own and are modelled below.
\<close>

type_synonym 'img cv_pipeline = "'img \<Rightarrow> 'img \<Rightarrow> region \<Rightarrow> int \<Rightarrow> error + contour list"

text \<open>First loop of \<^verbatim>\<open>detect_all_tubes\<close>: every tube's history is emptied.\<close>

fun clear_history :: "nat list \<Rightarrow> int list list \<Rightarrow> error + int list list" where
  "clear_history [] hist = Inr hist"
| "clear_history (i # rest) hist =
     (if i < length hist then clear_history rest (hist[i := []]) else Inl IndexError)"

text \<open>The loop over the valid contours of tube \<open>i\<close>.\<close>

fun contour_loop ::
  "region \<Rightarrow> nat \<Rightarrow> contour list \<Rightarrow> fly list \<Rightarrow> int list list \<Rightarrow>
   error + (fly list \<times> int list list)" where
  "contour_loop r i [] tube_fly_results hist = Inr (tube_fly_results, hist)"
| "contour_loop (x, y, w, h) i (c # cs) tube_fly_results hist =
     (if c_m00 c \<noteq> 0 then
        (let cx = py_trunc (c_m10 c / c_m00 c);
             cy = py_trunc (c_m01 c / c_m00 c);
             global_x = x + cx;
             global_y = y + cy;
             height = h - cy
         in if i < length hist
            then contour_loop (x, y, w, h) i cs
                   (tube_fly_results @ [(global_x, global_y, height)])
                   (hist[i := hist ! i @ [height]])
            else Inl IndexError)
      else contour_loop (x, y, w, h) i cs tube_fly_results hist)"

text \<open>
  The update of the per-tube results after the contour loop. The index checks of the
  single list accesses are gathered in one condition: each of them raises the same
  \<^verbatim>\<open>IndexError\<close>, and the state of a raising call is not observed.
\<close>

definition update_tube ::
  "nat \<Rightarrow> fly list \<Rightarrow> 'img MultiTubeFlyDetector \<Rightarrow> error + 'img MultiTubeFlyDetector" where
  "update_tube i tube_fly_results d =
     (if tube_fly_results \<noteq> [] then
        (if i < length (fly_positions d) \<and> i < length (climbing_heights d) \<and>
            i < length (max_heights d) \<and> i < length (detection_history d) \<and>
            (detection_history d ! i \<noteq> [] \<longrightarrow> i < length (avg_heights d))
         then
           (let first = hd tube_fly_results;
                heights = map (\<lambda>(fx, fy, fh). fh) tube_fly_results;
                max_height = py_max heights;
                h_i = detection_history d ! i
            in Inr (d\<lparr> fly_positions := (fly_positions d)[i := Some (fst first, fst (snd first))],
                      climbing_heights := (climbing_heights d)[i := py_max heights],
                      max_heights :=
                        (if max_height > max_heights d ! i
                         then (max_heights d)[i := max_height] else max_heights d),
                      avg_heights :=
                        (if h_i \<noteq> []
                         then (avg_heights d)[i := of_int (sum_list h_i) / of_int (int (length h_i))]
                         else avg_heights d) \<rparr>))
         else Inl IndexError)
      else
        (if i < length (fly_positions d) \<and> i < length (climbing_heights d)
         then Inr (d\<lparr> fly_positions := (fly_positions d)[i := None],
                      climbing_heights := (climbing_heights d)[i := 0] \<rparr>)
         else Inl IndexError))"

text \<open>
  One iteration of the loop over the tubes. With a region set, the source subscripts
  \<^verbatim>\<open>self.background_frame\<close> without testing it: \<^verbatim>\<open>None[...]\<close> raises
  \<^verbatim>\<open>TypeError\<close>.
\<close>

definition detect_tube ::
  "'img cv_pipeline \<Rightarrow> 'img \<Rightarrow> nat \<Rightarrow> 'img MultiTubeFlyDetector \<Rightarrow>
   error + ('img MultiTubeFlyDetector \<times> fly list)" where
  "detect_tube cv frame i d =
     (if i < length (tube_regions d) then
        (case tube_regions d ! i of
           None \<Rightarrow> Inr (d, [])
         | Some r \<Rightarrow>
            (case background_frame d of
               None \<Rightarrow> Inl TypeError
             | Some bg \<Rightarrow>
                (case cv frame bg r (threshold d) of
                   Inl e \<Rightarrow> Inl e
                 | Inr contours \<Rightarrow>
                    (let valid_contours =
                           filter (\<lambda>c. of_int (min_area d) \<le> c_area c \<and>
                                        c_area c \<le> of_int (max_area d)) contours
                     in case contour_loop r i valid_contours [] (detection_history d) of
                          Inl e \<Rightarrow> Inl e
                        | Inr (tube_fly_results, hist) \<Rightarrow>
                           (case update_tube i tube_fly_results (d\<lparr>detection_history := hist\<rparr>) of
                              Inl e \<Rightarrow> Inl e
                            | Inr d' \<Rightarrow> Inr (d', tube_fly_results))))))
      else Inl IndexError)"

fun tube_loop ::
  "'img cv_pipeline \<Rightarrow> 'img \<Rightarrow> nat list \<Rightarrow> 'img MultiTubeFlyDetector \<Rightarrow> fly list list \<Rightarrow>
   error + ('img MultiTubeFlyDetector \<times> fly list list)" where
  "tube_loop cv frame [] d results = Inr (d, results)"
| "tube_loop cv frame (i # rest) d results =
     (case detect_tube cv frame i d of
        Inl e \<Rightarrow> Inl e
      | Inr (d', tube_fly_results) \<Rightarrow> tube_loop cv frame rest d' (results @ [tube_fly_results]))"

definition detect_all_tubes ::
  "'img cv_pipeline \<Rightarrow> 'img \<Rightarrow> 'img MultiTubeFlyDetector \<Rightarrow>
   error + ('img MultiTubeFlyDetector \<times> fly list list)" where
  "detect_all_tubes cv frame d =
     (case clear_history [0..<nat (tube_count d)] (detection_history d) of
        Inl e \<Rightarrow> Inl e
      | Inr hist \<Rightarrow>
         tube_loop cv frame [0..<nat (tube_count d)] (d\<lparr>detection_history := hist\<rparr>) [])"

subsection \<open>Genotype comparison\<close>

datatype genotype_entry =
  GenotypeEntry (e_name: string) (e_index: nat) (e_max_height: int) (e_avg_height: rat)
    (e_current_height: int)

text \<open>
  The condition \<^verbatim>\<open>tube_regions[i] is not None and detection_history[i]\<close> short-cuts:
  the history is read only for a tube whose region is set.
\<close>

fun genotype_loop ::
  "nat list \<Rightarrow> 'img MultiTubeFlyDetector \<Rightarrow> genotype_entry list \<Rightarrow> error + genotype_entry list" where
  "genotype_loop [] d genotype_data = Inr genotype_data"
| "genotype_loop (i # rest) d genotype_data =
     (if i < length (tube_regions d) then
        (if tube_regions d ! i \<noteq> None then
           (if i < length (detection_history d) then
              (if detection_history d ! i \<noteq> [] then
                 (if i < length (genotype_names d) \<and> i < length (max_heights d) \<and>
                     i < length (avg_heights d) \<and> i < length (climbing_heights d)
                  then genotype_loop rest d
                         (genotype_data @
                            [GenotypeEntry (genotype_names d ! i) i (max_heights d ! i)
                               (avg_heights d ! i) (climbing_heights d ! i)])
                  else Inl IndexError)
               else genotype_loop rest d genotype_data)
            else Inl IndexError)
         else genotype_loop rest d genotype_data)
      else Inl IndexError)"

definition compare_genotypes :: "'img MultiTubeFlyDetector \<Rightarrow> error + genotype_entry list" where
  "compare_genotypes d =
     (case genotype_loop [0..<nat (tube_count d)] d [] of
        Inl e \<Rightarrow> Inl e
      | Inr genotype_data \<Rightarrow> Inr (py_sort_desc e_avg_height genotype_data))"

subsection \<open>Automatic division of a capture area\<close>

text \<open>
  \<open>shape\<close> gives \<^verbatim>\<open>frame.shape[:2]\<close>, that is (height, width). Python's \<^verbatim>\<open>//\<close> on
  integers is floor division, as \<open>div\<close> on \<open>int\<close> is; division by zero raises.
\<close>

definition auto_detect_tubes ::
  "('img \<Rightarrow> int \<times> int) \<Rightarrow> 'img \<Rightarrow> region option \<Rightarrow> int option \<Rightarrow>
   'img MultiTubeFlyDetector \<Rightarrow> error + ('img MultiTubeFlyDetector \<times> region list)" where
  "auto_detect_tubes shape frame roi_region tube_count_arg d0 =
     (let d = (case tube_count_arg of None \<Rightarrow> d0 | Some n \<Rightarrow> set_tube_count n d0);
          roi = (case roi_region of
                   None \<Rightarrow> (let (height, width) = shape frame in (0, 0, width, height))
                 | Some r \<Rightarrow> r)
      in case roi of (roi_x, roi_y, roi_w, roi_h) \<Rightarrow>
           if tube_count d = 0 then Inl ZeroDivisionError
           else
             (let tube_width = roi_w div tube_count d;
                  regs = map (\<lambda>i. (roi_x + int i * tube_width, roi_y, tube_width, roi_h))
                           [0..<nat (tube_count d)]
              in Inr (d\<lparr>tube_regions := map Some regs\<rparr>, regs)))"

text \<open>The pixel columns a region covers.\<close>

definition columns :: "region \<Rightarrow> int set" where
  "columns r = (case r of (x, y, w, h) \<Rightarrow> {x ..< x + w})"


section \<open>User interface: frame ranking, consensus merge, manual correction\<close>

subsection \<open>Video player\<close>

text \<open>
  The fields of \<^verbatim>\<open>VideoPlayer\<close> the ranking reads and writes. \<open>capture_open\<close> stands
  for \<^verbatim>\<open>video_capture is not None\<close>. Reading the capture is a parameter
  \<open>rd frame_number\<close>: the image \<^verbatim>\<open>video_capture.read()\<close> returns after positioning at
  that frame, or \<open>None\<close> when the read fails.
\<close>

record 'img VideoPlayer =
  capture_open :: bool
  total_frames :: int
  current_frame :: int
  current_frame_image :: "'img option"

definition seek_frame ::
  "(int \<Rightarrow> 'img option) \<Rightarrow> int \<Rightarrow> 'img VideoPlayer \<Rightarrow> 'img VideoPlayer \<times> bool" where
  "seek_frame rd frame_number p =
     (if \<not> capture_open p \<or> frame_number < 0 \<or> frame_number \<ge> total_frames p then (p, False)
      else
        (let p' = p\<lparr>current_frame := frame_number\<rparr>
         in case rd frame_number of
              Some frame \<Rightarrow> (p'\<lparr>current_frame_image := Some frame\<rparr>, True)
            | None \<Rightarrow> (p', False)))"

definition get_current_frame :: "'img VideoPlayer \<Rightarrow> 'img option" where
  "get_current_frame p = current_frame_image p"

record 'img MultiTubeUI =
  end_frame :: int
  video_player :: "'img VideoPlayer"
  detector :: "'img MultiTubeFlyDetector"
  manual_selection_history :: "(int \<times> int \<times> int \<times> int) list"
  manual_selecting :: bool

subsection \<open>Sharpest frame and its neighbours\<close>

datatype ('img, 's) frame_score =
  FrameScore (fs_frame: 'img) (fs_frame_number: int) (fs_sharpness_score: 's)

text \<open>
  The scan of the window. \<open>sharp\<close> stands for the variance of the Laplacian of the grey
  image. The result of \<^verbatim>\<open>seek_frame\<close> is ignored by the source: after a failed seek
  \<^verbatim>\<open>get_current_frame\<close> still returns the image read before.
\<close>

fun scan_frames ::
  "(int \<Rightarrow> 'img option) \<Rightarrow> ('img \<Rightarrow> 's) \<Rightarrow> int list \<Rightarrow> 'img VideoPlayer \<Rightarrow>
   ('img, 's) frame_score list \<Rightarrow> 'img VideoPlayer \<times> ('img, 's) frame_score list" where
  "scan_frames rd sharp [] p frame_scores = (p, frame_scores)"
| "scan_frames rd sharp (frame_num # rest) p frame_scores =
     (let p' = fst (seek_frame rd frame_num p)
      in case get_current_frame p' of
           None \<Rightarrow> scan_frames rd sharp rest p' frame_scores
         | Some frame \<Rightarrow>
             scan_frames rd sharp rest p' (frame_scores @ [FrameScore frame frame_num (sharp frame)]))"

definition window_start :: "'img MultiTubeUI \<Rightarrow> int" where
  "window_start ui = max 0 (end_frame ui - 10)"

definition window_end :: "'img MultiTubeUI \<Rightarrow> int" where
  "window_end ui = min (total_frames (video_player ui) - 1) (end_frame ui + 10)"

text \<open>The list \<^verbatim>\<open>frame_scores\<close> in scan order, before it is sorted.\<close>

definition scanned_frames ::
  "(int \<Rightarrow> 'img option) \<Rightarrow> ('img \<Rightarrow> 's) \<Rightarrow> 'img MultiTubeUI \<Rightarrow> ('img, 's) frame_score list" where
  "scanned_frames rd sharp ui =
     snd (scan_frames rd sharp [window_start ui .. window_end ui] (video_player ui) [])"

text \<open>The three frame numbers chosen around the sharpest frame number \<open>s\<close>.\<close>

definition choose_frame_numbers :: "int \<Rightarrow> int \<Rightarrow> int \<Rightarrow> int list" where
  "choose_frame_numbers start_frame end_frame' s =
     (let prev_frame = max start_frame (s - 1);
          next_frame = min end_frame' (s + 1)
      in if prev_frame = s then [s, next_frame, min end_frame' (next_frame + 1)]
         else if next_frame = s then [max start_frame (prev_frame - 1), prev_frame, s]
         else [prev_frame, s, next_frame])"

text \<open>
  \<^verbatim>\<open>frame_scores[0]\<close> raises \<^verbatim>\<open>IndexError\<close> when no frame was scanned. The three
  returned lists are parallel; a chosen frame number without a scanned entry is left out.
\<close>

definition get_top_3_sharpest_frames ::
  "(int \<Rightarrow> 'img option) \<Rightarrow> ('img \<Rightarrow> 's::linorder) \<Rightarrow> 'img MultiTubeUI \<Rightarrow>
   error + ('img MultiTubeUI \<times> 'img list \<times> int list \<times> 's list)" where
  "get_top_3_sharpest_frames rd sharp ui =
     (let start_frame = window_start ui;
          end_frame' = window_end ui;
          (p, scanned) = scan_frames rd sharp [start_frame .. end_frame'] (video_player ui) [];
          frame_scores = py_sort_desc fs_sharpness_score scanned
      in case frame_scores of
           [] \<Rightarrow> Inl IndexError
         | sharpest_frame # others \<Rightarrow>
            (let sharpest_frame_num = fs_frame_number sharpest_frame;
                 frame_numbers = choose_frame_numbers start_frame end_frame' sharpest_frame_num;
                 found = List.map_filter
                           (\<lambda>frame_num. find (\<lambda>item. fs_frame_number item = frame_num) frame_scores)
                           frame_numbers;
                 p' = fst (seek_frame rd sharpest_frame_num p)
             in Inr (ui\<lparr>video_player := p'\<rparr>,
                     map fs_frame found, map fs_frame_number found,
                     map fs_sharpness_score found)))"

subsection \<open>Merging the detections of several frames\<close>

text \<open>
  The dictionary \<^verbatim>\<open>fly_positions\<close> of one tube is an association list in insertion
  order: the key is the position of the blob that opened the entry, the value is the
  blob currently kept for it, with its provenance.
\<close>

datatype 's fly_info =
  FlyInfo (info_x: int) (info_y: int) (info_height: int) (info_frame_idx: nat)
    (info_frame_number: int) (info_sharpness: 's)

type_synonym 's clusters = "((int \<times> int) \<times> 's fly_info) list"

text \<open>
  \<^verbatim>\<open>((fly_x - existing_x) ** 2 + (fly_y - existing_y) ** 2) ** 0.5 < 10\<close> on integer
  coordinates: the squared distance is an integer, and its square root is below 10
  exactly when the squared distance is below 100.
\<close>

definition distance_lt_10 :: "int \<Rightarrow> int \<Rightarrow> int \<Rightarrow> int \<Rightarrow> bool" where
  "distance_lt_10 fly_x fly_y existing_x existing_y \<longleftrightarrow>
     (fly_x - existing_x)\<^sup>2 + (fly_y - existing_y)\<^sup>2 < 100"

text \<open>The dictionary value built for a blob; both list subscripts can raise.\<close>

definition make_info :: "fly \<Rightarrow> nat \<Rightarrow> int list \<Rightarrow> 's list \<Rightarrow> error + 's fly_info" where
  "make_info fly frame_idx frame_numbers sharpness_scores =
     (case fly of (fly_x, fly_y, fly_height) \<Rightarrow>
        if frame_idx < length frame_numbers \<and> frame_idx < length sharpness_scores
        then Inr (FlyInfo fly_x fly_y fly_height frame_idx (frame_numbers ! frame_idx)
                    (sharpness_scores ! frame_idx))
        else Inl IndexError)"

text \<open>
  One blob against the dictionary: the loop over the items stops at the first key within
  10 pixels (\<^verbatim>\<open>break\<close>); the value is replaced only by a strictly higher blob and the
  key is never changed. Without such a key the blob opens a new entry at the end.
\<close>

fun merge_fly ::
  "fly \<Rightarrow> nat \<Rightarrow> int list \<Rightarrow> 's list \<Rightarrow> 's clusters \<Rightarrow> error + 's clusters" where
  "merge_fly fly frame_idx frame_numbers sharpness_scores [] =
     (case make_info fly frame_idx frame_numbers sharpness_scores of
        Inl e \<Rightarrow> Inl e
      | Inr info \<Rightarrow> Inr [((fst fly, fst (snd fly)), info)])"
| "merge_fly fly frame_idx frame_numbers sharpness_scores ((pos_key, existing_fly) # rest) =
     (if distance_lt_10 (fst fly) (fst (snd fly)) (fst pos_key) (snd pos_key) then
        (if snd (snd fly) > info_height existing_fly then
           (case make_info fly frame_idx frame_numbers sharpness_scores of
              Inl e \<Rightarrow> Inl e
            | Inr info \<Rightarrow> Inr ((pos_key, info) # rest))
         else Inr ((pos_key, existing_fly) # rest))
      else
        (case merge_fly fly frame_idx frame_numbers sharpness_scores rest of
           Inl e \<Rightarrow> Inl e
         | Inr rest' \<Rightarrow> Inr ((pos_key, existing_fly) # rest')))"

text \<open>The loop over the blobs of one frame.\<close>

fun merge_frame ::
  "fly list \<Rightarrow> nat \<Rightarrow> int list \<Rightarrow> 's list \<Rightarrow> 's clusters \<Rightarrow> error + 's clusters" where
  "merge_frame [] frame_idx frame_numbers sharpness_scores cl = Inr cl"
| "merge_frame (fly # rest) frame_idx frame_numbers sharpness_scores cl =
     (case merge_fly fly frame_idx frame_numbers sharpness_scores cl of
        Inl e \<Rightarrow> Inl e
      | Inr cl' \<Rightarrow> merge_frame rest frame_idx frame_numbers sharpness_scores cl')"

text \<open>
  The loop over the frames for tube \<open>tube_idx\<close>; \<^verbatim>\<open>detection_results[tube_idx]\<close> raises
  when a frame lists fewer tubes than the first one. The frames come from
  \<open>detect_all_tubes\<close>, whose per-tube results are lists of triples, so the source's tests
  for \<^verbatim>\<open>None\<close> entries are never taken.
\<close>

fun merge_frames ::
  "fly list list list \<Rightarrow> nat \<Rightarrow> nat \<Rightarrow> int list \<Rightarrow> 's list \<Rightarrow> 's clusters \<Rightarrow>
   error + 's clusters" where
  "merge_frames [] frame_idx tube_idx frame_numbers sharpness_scores cl = Inr cl"
| "merge_frames (detection_results' # rest) frame_idx tube_idx frame_numbers sharpness_scores cl =
     (if tube_idx < length detection_results' then
        (case merge_frame (detection_results' ! tube_idx) frame_idx frame_numbers
                sharpness_scores cl of
           Inl e \<Rightarrow> Inl e
         | Inr cl' \<Rightarrow>
            merge_frames rest (Suc frame_idx) tube_idx frame_numbers sharpness_scores cl')
      else Inl IndexError)"

definition merge_tube ::
  "fly list list list \<Rightarrow> int list \<Rightarrow> 's list \<Rightarrow> nat \<Rightarrow> error + fly list option" where
  "merge_tube all_detection_results frame_numbers sharpness_scores tube_idx =
     (case merge_frames all_detection_results 0 tube_idx frame_numbers sharpness_scores [] of
        Inl e \<Rightarrow> Inl e
      | Inr fly_positions' \<Rightarrow>
         (let tube_flies =
                map (\<lambda>(pos_key, fly_info).
                       (info_x fly_info, info_y fly_info, info_height fly_info)) fly_positions'
          in Inr (if tube_flies \<noteq> [] then Some tube_flies else None)))"

fun merge_tubes ::
  "fly list list list \<Rightarrow> int list \<Rightarrow> 's list \<Rightarrow> nat list \<Rightarrow> error + fly list option list" where
  "merge_tubes all_detection_results frame_numbers sharpness_scores [] = Inr []"
| "merge_tubes all_detection_results frame_numbers sharpness_scores (tube_idx # rest) =
     (case merge_tube all_detection_results frame_numbers sharpness_scores tube_idx of
        Inl e \<Rightarrow> Inl e
      | Inr tube_flies \<Rightarrow>
         (case merge_tubes all_detection_results frame_numbers sharpness_scores rest of
            Inl e \<Rightarrow> Inl e
          | Inr merged \<Rightarrow> Inr (tube_flies # merged)))"

definition merge_detection_results ::
  "fly list list list \<Rightarrow> int list \<Rightarrow> 's list \<Rightarrow> error + fly list option list" where
  "merge_detection_results all_detection_results frame_numbers sharpness_scores =
     (let tube_count' = (case all_detection_results of [] \<Rightarrow> 0 | first # others \<Rightarrow> length first)
      in merge_tubes all_detection_results frame_numbers sharpness_scores [0..<tube_count'])"

text \<open>
  The merge as the specification words it, for comparison: the distance of a blob is
  taken to the blob that currently represents the cluster.
\<close>

fun spec_merge_fly :: "fly \<Rightarrow> fly list \<Rightarrow> fly list" where
  "spec_merge_fly fly [] = [fly]"
| "spec_merge_fly fly (representative # rest) =
     (if distance_lt_10 (fst fly) (fst (snd fly)) (fst representative) (fst (snd representative))
      then (if snd (snd fly) > snd (snd representative) then fly else representative) # rest
      else representative # spec_merge_fly fly rest)"

definition spec_merge_region :: "fly list \<Rightarrow> fly list" where
  "spec_merge_region observations = fold spec_merge_fly observations []"

subsection \<open>Manual selection and undo\<close>

datatype notice = NothingToUndo | SelectionUndone

text \<open>
  \<^verbatim>\<open>on_fly_selected\<close>: the height is derived from the click and the tube region and
  clamped to the tube. The refresh of the table, of the display and of the status bar
  is presentation and not modelled.
\<close>

definition on_fly_selected ::
  "int \<Rightarrow> int \<times> int \<Rightarrow> 'img MultiTubeUI \<Rightarrow> error + 'img MultiTubeUI" where
  "on_fly_selected tube_index image_pos ui =
     (if \<not> manual_selecting ui then Inr ui
      else case image_pos of (fly_x, fly_y) \<Rightarrow>
        (case py_index (tube_regions (detector ui)) tube_index of
           None \<Rightarrow> Inl IndexError
         | Some k \<Rightarrow>
            (case tube_regions (detector ui) ! k of
               None \<Rightarrow> Inr ui
             | Some (x, y, w, h) \<Rightarrow>
                (let h0 = y + h - fly_y;
                     fly_height = (if h0 < 0 then 0 else if h0 > h then h else h0);
                     results = (case detection_results (detector ui) of
                                  None \<Rightarrow> replicate (nat (tube_count (detector ui))) None
                                | Some r \<Rightarrow> r)
                 in case py_index results tube_index of
                      None \<Rightarrow> Inl IndexError
                    | Some j \<Rightarrow>
                       (let flies = (case results ! j of None \<Rightarrow> [] | Some l \<Rightarrow> l)
                        in Inr (ui\<lparr> detector := (detector ui)
                                      \<lparr>detection_results :=
                                         Some (results[j := Some (flies @ [(fly_x, fly_y, fly_height)])])\<rparr>,
                                    manual_selection_history :=
                                      manual_selection_history ui @
                                        [(tube_index, fly_x, fly_y, fly_height)] \<rparr>))))))"

text \<open>The search of \<^verbatim>\<open>undo_last_selection\<close>: the first matching entry is popped.\<close>

fun remove_first_match :: "int \<Rightarrow> int \<Rightarrow> fly list \<Rightarrow> fly list" where
  "remove_first_match fly_x fly_height [] = []"
| "remove_first_match fly_x fly_height ((fx, fy, fh) # rest) =
     (if \<bar>fx - fly_x\<bar> < 5 \<and> \<bar>fh - fly_height\<bar> < 3 then rest
      else (fx, fy, fh) # remove_first_match fly_x fly_height rest)"

definition undo_last_selection :: "'img MultiTubeUI \<Rightarrow> error + ('img MultiTubeUI \<times> notice)" where
  "undo_last_selection ui =
     (if manual_selection_history ui = [] then Inr (ui, NothingToUndo)
      else
        (let last_selection = last (manual_selection_history ui);
             ui' = ui\<lparr>manual_selection_history := butlast (manual_selection_history ui)\<rparr>
         in case last_selection of (tube_index, fly_x, fly_y, fly_height) \<Rightarrow>
              (case detection_results (detector ui) of
                 None \<Rightarrow> Inr (ui', SelectionUndone)
               | Some results \<Rightarrow>
                  (case py_index results tube_index of
                     None \<Rightarrow> Inl IndexError
                   | Some j \<Rightarrow>
                      (case results ! j of
                         None \<Rightarrow> Inr (ui', SelectionUndone)
                       | Some flies \<Rightarrow>
                          Inr (ui'\<lparr> detector := (detector ui)
                                      \<lparr>detection_results :=
                                         Some (results[j := Some (remove_first_match fly_x fly_height flies)])\<rparr> \<rparr>,
                               SelectionUndone))))))"

text \<open>The current blob list of a tube, as the result table reads it.\<close>

definition current_flies :: "'img MultiTubeUI \<Rightarrow> nat \<Rightarrow> fly list option" where
  "current_flies ui j =
     (case detection_results (detector ui) of
        None \<Rightarrow> None
      | Some results \<Rightarrow> (if j < length results then results ! j else None))"

section \<open>Notions used in the statements and sample states\<close>

text \<open>
  A concrete instance used to run the definitions: an image is represented by the
  contours the OpenCV pipeline finds in it, so the pipeline returns the frame itself.
\<close>

definition sample_cv :: "(contour list) cv_pipeline" where
  "sample_cv frame bg r thr = Inr frame"

text \<open>A frame with one blob of area 100 whose centroid is at local (50, 245).\<close>

definition one_blob_frame :: "contour list" where
  "one_blob_frame = [Contour 100 100 5000 24500]"

text \<open>A detector with two tubes after one pass: tube 0 saw one fly at height 55.\<close>

definition sample_detector :: "(contour list) MultiTubeFlyDetector" where
  "sample_detector =
     \<lparr> tube_count = 2,
       tube_regions = [Some (100, 50, 100, 300), None],
       genotype_names = [''w1118'', default_name 1],
       background_frame = Some [],
       threshold = 15,
       min_area = 40,
       max_area = 500,
       fly_positions = [Some (150, 295), None],
       climbing_heights = [55, 0],
       max_heights = [55, 0],
       avg_heights = [55, 0],
       detection_history = [[55], []],
       detection_results = None \<rparr>"

text \<open>
  The \<open>i\<close>-th region of an even division of the capture area \<open>roi\<close> into \<open>n\<close> tubes,
  as the claim about \<open>auto_detect_tubes\<close> words it.
\<close>

definition split_region :: "region \<Rightarrow> int \<Rightarrow> nat \<Rightarrow> region" where
  "split_region roi n i =
     (case roi of (rx, ry, rw, rh) \<Rightarrow> (rx + int i * (rw div n), ry, rw div n, rh))"

text \<open>
  For the statement about \<open>compare_genotypes\<close>: the entry built for tube \<open>i\<close>, the
  condition under which the loop appends it, and the order the result is claimed to have
  (larger average first; among equal averages the smaller tube index first).
\<close>

definition entry_of :: "'img MultiTubeFlyDetector \<Rightarrow> nat \<Rightarrow> genotype_entry" where
  "entry_of d i =
     GenotypeEntry (genotype_names d ! i) i (max_heights d ! i) (avg_heights d ! i)
       (climbing_heights d ! i)"

definition listed :: "'img MultiTubeFlyDetector \<Rightarrow> nat \<Rightarrow> bool" where
  "listed d i \<longleftrightarrow> tube_regions d ! i \<noteq> None \<and> detection_history d ! i \<noteq> []"

definition ranks_before :: "genotype_entry \<Rightarrow> genotype_entry \<Rightarrow> bool" where
  "ranks_before a b \<longleftrightarrow>
     e_avg_height a > e_avg_height b \<or>
     (e_avg_height a = e_avg_height b \<and> e_index a < e_index b)"

text \<open>The sample detector after \<open>set_tube_region 0 None\<close>: the history of tube 0 stays.\<close>

definition unset_region_detector :: "(contour list) MultiTubeFlyDetector" where
  "unset_region_detector = sample_detector\<lparr>tube_regions := [None, None]\<rparr>"

text \<open>Four tubes with averages 40, 55, none and 40.\<close>

definition ranking_detector :: "(contour list) MultiTubeFlyDetector" where
  "ranking_detector =
     \<lparr> tube_count = 4,
       tube_regions = [Some (0, 0, 100, 300), Some (100, 0, 100, 300),
                       Some (200, 0, 100, 300), Some (300, 0, 100, 300)],
       genotype_names = [''a'', ''b'', ''c'', ''d''],
       background_frame = Some [],
       threshold = 15,
       min_area = 40,
       max_area = 500,
       fly_positions = [Some (50, 260), Some (150, 245), None, Some (350, 260)],
       climbing_heights = [40, 55, 0, 40],
       max_heights = [40, 55, 0, 40],
       avg_heights = [40, 55, 0, 40],
       detection_history = [[40], [55], [], [40]],
       detection_results = None \<rparr>"

text \<open>The height component of a detected fly \<open>(x, y, height)\<close>.\<close>

definition fly_height :: "fly \<Rightarrow> int" where
  "fly_height fly = (case fly of (fx, fy, fh) \<Rightarrow> fh)"

text \<open>
  Two tubes, a region and a label for tube 0 and a background: the state from which one
  pass over \<open>one_blob_frame\<close> leads to \<open>sample_detector\<close>.
\<close>

definition prepared_detector :: "(contour list) MultiTubeFlyDetector" where
  "prepared_detector =
     (init 2)\<lparr> tube_regions := [Some (100, 50, 100, 300), None],
               genotype_names := [''w1118'', default_name 1],
               background_frame := Some [] \<rparr>"

text \<open>
  For the statement about the merge: the blobs of one tube in frame order and, within a
  frame, in discovery order, each with the index of its frame; the merge of such a
  sequence, blob by blob; and the distance test of a blob against a dictionary key.
\<close>

definition tagged_blobs :: "nat \<Rightarrow> fly list list list \<Rightarrow> nat \<Rightarrow> (fly \<times> nat) list" where
  "tagged_blobs first_idx frames tube_idx =
     concat (map (\<lambda>(frame_idx, frame). map (\<lambda>fly. (fly, frame_idx)) (frame ! tube_idx))
               (enumerate first_idx frames))"

fun merge_sequence ::
  "(fly \<times> nat) list \<Rightarrow> int list \<Rightarrow> 's list \<Rightarrow> 's clusters \<Rightarrow> error + 's clusters" where
  "merge_sequence [] frame_numbers sharpness_scores cl = Inr cl"
| "merge_sequence ((fly, frame_idx) # rest) frame_numbers sharpness_scores cl =
     (case merge_fly fly frame_idx frame_numbers sharpness_scores cl of
        Inl e \<Rightarrow> Inl e
      | Inr cl' \<Rightarrow> merge_sequence rest frame_numbers sharpness_scores cl')"

definition near_key :: "fly \<Rightarrow> (int \<times> int) \<Rightarrow> bool" where
  "near_key fly pos_key \<longleftrightarrow> distance_lt_10 (fst fly) (fst (snd fly)) (fst pos_key) (snd pos_key)"

text \<open>
  For the statement about manual correction: the height \<^verbatim>\<open>on_fly_selected\<close> derives
  from a click, the result lists it works on (a fresh list of unset entries when the
  attribute is absent), and the tolerance test of \<^verbatim>\<open>undo_last_selection\<close>.
\<close>

definition click_height :: "region \<Rightarrow> int \<Rightarrow> int" where
  "click_height r fly_y =
     (case r of (x, y, w, h) \<Rightarrow>
        (if y + h - fly_y < 0 then 0 else if y + h - fly_y > h then h else y + h - fly_y))"

definition results_or_fresh :: "'img MultiTubeUI \<Rightarrow> fly list option list" where
  "results_or_fresh ui =
     (case detection_results (detector ui) of
        None \<Rightarrow> replicate (nat (tube_count (detector ui))) None
      | Some r \<Rightarrow> r)"

definition flies_or_empty :: "fly list option \<Rightarrow> fly list" where
  "flies_or_empty l = (case l of None \<Rightarrow> [] | Some flies \<Rightarrow> flies)"

definition matches :: "int \<Rightarrow> int \<Rightarrow> fly \<Rightarrow> bool" where
  "matches fly_x fly_height' fly \<longleftrightarrow>
     (case fly of (fx, fy, fh) \<Rightarrow> \<bar>fx - fly_x\<bar> < 5 \<and> \<bar>fh - fly_height'\<bar> < 3)"

text \<open>
  A user interface in manual-selection mode over two tubes with regions; tube 0 holds one
  detected fly, the list of tube 1 is unset.
\<close>

definition sample_player :: "(contour list) VideoPlayer" where
  "sample_player =
     \<lparr> capture_open = True, total_frames = 100, current_frame = 0,
       current_frame_image = Some [] \<rparr>"

definition sample_ui :: "(contour list) MultiTubeUI" where
  "sample_ui =
     \<lparr> end_frame = 50,
       video_player = sample_player,
       detector = sample_detector
                    \<lparr> tube_regions := [Some (100, 50, 100, 300), Some (200, 50, 100, 300)],
                      detection_results := Some [Some [(150, 295, 55)], None] \<rparr>,
       manual_selection_history = [],
       manual_selecting = True \<rparr>"

text \<open>The states after a click at (152, 296) in tube 0 and after undoing it.\<close>

definition clicked_ui :: "(contour list) MultiTubeUI" where
  "clicked_ui =
     sample_ui\<lparr> detector := (detector sample_ui)
                   \<lparr>detection_results := Some [Some [(150, 295, 55), (152, 296, 54)], None]\<rparr>,
                 manual_selection_history := [(0, 152, 296, 54)] \<rparr>"

definition undone_ui :: "(contour list) MultiTubeUI" where
  "undone_ui =
     sample_ui\<lparr> detector := (detector sample_ui)
                   \<lparr>detection_results := Some [Some [(152, 296, 54)], None]\<rparr> \<rparr>"

text \<open>The states after a click at (250, 100) in tube 1 and after undoing it.\<close>

definition clicked_empty_ui :: "(contour list) MultiTubeUI" where
  "clicked_empty_ui =
     sample_ui\<lparr> detector := (detector sample_ui)
                   \<lparr>detection_results := Some [Some [(150, 295, 55)], Some [(250, 100, 250)]]\<rparr>,
                 manual_selection_history := [(1, 250, 100, 250)] \<rparr>"

definition undone_empty_ui :: "(contour list) MultiTubeUI" where
  "undone_empty_ui =
     sample_ui\<lparr> detector := (detector sample_ui)
                   \<lparr>detection_results := Some [Some [(150, 295, 55)], Some []]\<rparr> \<rparr>"

text \<open>
  A video of five frames whose images are their own frame numbers, a reader that reads
  every frame and one that fails on frame 0, and a sharpness score looked up in a table.
  In \<open>unread_ui\<close> the player holds no image yet.
\<close>

definition frames_player :: "int VideoPlayer" where
  "frames_player =
     \<lparr> capture_open = True, total_frames = 5, current_frame = 0, current_frame_image = Some 0 \<rparr>"

definition frames_ui :: "int MultiTubeUI" where
  "frames_ui =
     \<lparr> end_frame = 2,
       video_player = frames_player,
       detector = init 5,
       manual_selection_history = [],
       manual_selecting = False \<rparr>"

definition unread_ui :: "int MultiTubeUI" where
  "unread_ui = frames_ui\<lparr>video_player := frames_player\<lparr>current_frame_image := None\<rparr>\<rparr>"

definition read_all :: "int \<Rightarrow> int option" where
  "read_all n = Some n"

definition read_but_first :: "int \<Rightarrow> int option" where
  "read_but_first n = (if n = 0 then None else Some n)"

definition table_sharpness :: "int list \<Rightarrow> int \<Rightarrow> int" where
  "table_sharpness table img = table ! nat img"

section \<open>Properties of the detector\<close>

lemma well_formed_init: "well_formed (init n)"
  by (simp add: well_formed_def init_def)

lemma well_formed_set_tube_count: "well_formed (set_tube_count n d)"
  by (simp add: well_formed_def set_tube_count_def)

lemma well_formed_sample_detector: "well_formed sample_detector"
  by (simp add: well_formed_def sample_detector_def)

subsection \<open>Changing the tube count\<close>

text \<open>
  C10. Every call \<open>set_tube_count n\<close>, for any integer \<open>n\<close> (also the current count, zero
  or a negative number), returns normally (the source has no guard and no raising
  statement, so the model is a total function) and discards the per-tube state: the
  count becomes \<open>n\<close>, every per-tube list has \<open>max 0 n\<close> entries, and at every index the
  region is unset, the label is the default name of that tube, the fly position is
  unset, the current, maximum and average heights are 0 and the detection history is
  empty.
\<close>

theorem set_tube_count_discards:
  "tube_count (set_tube_count n d) = n \<and> well_formed (set_tube_count n d) \<and>
   (\<forall>i < nat n.
      tube_regions (set_tube_count n d) ! i = None \<and>
      genotype_names (set_tube_count n d) ! i = default_name i \<and>
      fly_positions (set_tube_count n d) ! i = None \<and>
      climbing_heights (set_tube_count n d) ! i = 0 \<and>
      max_heights (set_tube_count n d) ! i = 0 \<and>
      avg_heights (set_tube_count n d) ! i = 0 \<and>
      detection_history (set_tube_count n d) ! i = [])"
  by (simp add: well_formed_def set_tube_count_def)

text \<open>
  The same count as before is no exception: tube 0 of the sample detector loses its
  region, its label, its heights and its history.
\<close>

theorem set_tube_count_discards_witness:
  "tube_count sample_detector = 2 \<and> (0::nat) < nat 2 \<and>
   tube_regions sample_detector ! 0 \<noteq> None \<and>
   detection_history sample_detector ! 0 \<noteq> [] \<and>
   tube_regions (set_tube_count 2 sample_detector) ! 0 = None \<and>
   genotype_names (set_tube_count 2 sample_detector) ! 0 = default_name 0 \<and>
   climbing_heights (set_tube_count 2 sample_detector) ! 0 = 0 \<and>
   max_heights (set_tube_count 2 sample_detector) ! 0 = 0 \<and>
   avg_heights (set_tube_count 2 sample_detector) ! 0 = 0 \<and>
   detection_history (set_tube_count 2 sample_detector) ! 0 = []"
  using set_tube_count_discards [of 2 sample_detector]
  by (simp add: sample_detector_def)

text \<open>
  C4. The claim asks \<open>set_tube_count 0\<close> to raise and to leave the detector unchanged.
  The source accepts the value: on the default detector of five tubes the count becomes
  0 and every per-tube list becomes empty.
\<close>

theorem set_tube_count_zero_accepted:
  "tube_count (set_tube_count 0 (init 5)) = 0 \<and>
   tube_regions (set_tube_count 0 (init 5)) = [] \<and>
   genotype_names (set_tube_count 0 (init 5)) = [] \<and>
   climbing_heights (set_tube_count 0 (init 5)) = [] \<and>
   max_heights (set_tube_count 0 (init 5)) = [] \<and>
   avg_heights (set_tube_count 0 (init 5)) = [] \<and>
   detection_history (set_tube_count 0 (init 5)) = [] \<and>
   length (tube_regions (init 5)) = 5"
  by (simp add: set_tube_count_def init_def)

subsection \<open>Indices outside the tube range\<close>

text \<open>
  C3. The claim asks every operation that takes a tube index to raise for an index
  outside \<open>[0, tube_count)\<close>. On the default detector of five tubes the setters return
  normally and leave the detector as it was, and the queries return 0.
\<close>

theorem out_of_range_index_is_silent:
  "set_tube_region 10 (Some (100, 100, 200, 200)) (init 5) = Inr (init 5) \<and>
   set_genotype_name 10 name (init 5) = Inr (init 5) \<and>
   get_max_height 10 (init 5) = Inr 0 \<and>
   get_avg_height 10 (init 5) = Inr 0 \<and>
   get_current_height 10 (init 5) = Inr 0 \<and>
   get_tube_height (- 1) (init 5) = Inr 0"
  by (simp add: set_tube_region_def set_genotype_name_def get_max_height_def get_avg_height_def
      get_current_height_def get_tube_height_def init_def)

subsection \<open>Detection without a background\<close>

text \<open>
  C1. The claim asks a pass without background to return an empty list for every tube.
  With one tube whose region was set and no background, the pass raises
  \<^verbatim>\<open>TypeError\<close>, whatever the frame and the OpenCV pipeline are.
\<close>

theorem detect_without_background_raises:
  "set_tube_region 0 (Some (100, 100, 200, 200)) (init 1) =
     Inr ((init 1)\<lparr>tube_regions := [Some (100, 100, 200, 200)]\<rparr>) \<and>
   background_frame ((init 1)\<lparr>tube_regions := [Some (100, 100, 200, 200)]\<rparr>) = None \<and>
   detect_all_tubes cv frame ((init 1)\<lparr>tube_regions := [Some (100, 100, 200, 200)]\<rparr>) =
     Inl TypeError"
  by (simp add: set_tube_region_def init_def detect_all_tubes_def detect_tube_def)

subsection \<open>Automatic division of a capture area\<close>

lemma auto_detect_tubes_result:
  "n \<noteq> 0 \<Longrightarrow>
   auto_detect_tubes shape frame (Some (rx, ry, rw, rh)) (Some n) d =
     Inr ((set_tube_count n d)\<lparr>tube_regions := map (Some \<circ> split_region (rx, ry, rw, rh) n) [0..<nat n]\<rparr>,
          map (split_region (rx, ry, rw, rh) n) [0..<nat n])"
  by (simp add: auto_detect_tubes_def set_tube_count_def split_region_def Let_def comp_def)

lemma columns_split_region:
  "columns (split_region (rx, ry, rw, rh) n i) =
     {rx + int i * (rw div n) ..< rx + (int i + 1) * (rw div n)}"
  by (simp add: columns_def split_region_def algebra_simps)

lemma columns_disjoint:
  assumes "i < j"
  shows "columns (split_region (rx, ry, rw, rh) n i) \<inter> columns (split_region (rx, ry, rw, rh) n j) = {}"
proof (cases "0 \<le> rw div n")
  case True
  from assms have "int i + 1 \<le> int j" by simp
  then have "(int i + 1) * (rw div n) \<le> int j * (rw div n)"
    using True by (rule mult_right_mono)
  then show ?thesis
    unfolding columns_split_region by auto
next
  case False
  then have "(int i + 1) * (rw div n) \<le> int i * (rw div n)"
    by (simp add: algebra_simps)
  then show ?thesis
    unfolding columns_split_region by auto
qed

lemma columns_below_remainder:
  assumes "0 < n" "i < nat n" "c \<in> columns (split_region (rx, ry, rw, rh) n i)"
  shows "c < rx + rw - rw mod n"
proof -
  from assms(3) have c: "rx + int i * (rw div n) \<le> c" "c < rx + (int i + 1) * (rw div n)"
    unfolding columns_split_region by auto
  then have pos: "0 < rw div n" by (simp add: algebra_simps)
  from assms(1,2) have "int i + 1 \<le> n" by simp
  then have "(int i + 1) * (rw div n) \<le> n * (rw div n)"
    using pos by (intro mult_right_mono) simp_all
  moreover have "n * (rw div n) = rw - rw mod n"
    by (simp add: minus_mod_eq_mult_div)
  ultimately show ?thesis using c by simp
qed

lemma columns_union:
  assumes "0 < n" "0 \<le> rw"
  shows "(\<Union>i<nat n. columns (split_region (rx, ry, rw, rh) n i)) = {rx ..< rx + rw - rw mod n}"
proof -
  have w: "0 \<le> rw div n" using assms by (simp add: pos_imp_zdiv_nonneg_iff)
  have tot: "n * (rw div n) = rw - rw mod n"
    by (simp add: minus_mod_eq_mult_div)
  have step: "{rx ..< rx + a} \<union> {rx + a ..< rx + a + rw div n} = {rx ..< rx + a + rw div n}"
    if "0 \<le> a" for a
    using that w by auto
  have "(\<Union>i<k. columns (split_region (rx, ry, rw, rh) n i)) = {rx ..< rx + int k * (rw div n)}" for k
  proof (induction k)
    case 0
    then show ?case by simp
  next
    case (Suc k)
    have nonneg: "0 \<le> int k * (rw div n)" using w by simp
    have "(\<Union>i<Suc k. columns (split_region (rx, ry, rw, rh) n i)) =
          (\<Union>i<k. columns (split_region (rx, ry, rw, rh) n i)) \<union>
          columns (split_region (rx, ry, rw, rh) n k)"
      by (simp add: lessThan_Suc Un_commute)
    also have "\<dots> = {rx ..< rx + int k * (rw div n)} \<union>
                     {rx + int k * (rw div n) ..< rx + int k * (rw div n) + rw div n}"
      by (simp only: Suc) (simp add: columns_split_region algebra_simps)
    also have "\<dots> = {rx ..< rx + int k * (rw div n) + rw div n}"
      by (rule step [OF nonneg])
    also have "\<dots> = {rx ..< rx + int (Suc k) * (rw div n)}"
      by (simp add: algebra_simps)
    finally show ?case .
  qed
  from this [of "nat n"] show ?thesis using assms(1) tot by (simp add: mult.commute add_diff_eq)
qed

text \<open>
  C9. For every capture area \<open>(rx, ry, rw, rh)\<close> and every tube count \<open>n \<ge> 1\<close>,
  \<open>auto_detect_tubes\<close> returns normally with exactly \<open>n\<close> regions, the \<open>i\<close>-th being
  \<open>(rx + i * (rw div n), ry, rw div n, rh)\<close>, and stores them as the detector's regions.
  All regions have the width \<open>rw div n\<close>, the same origin \<open>ry\<close> and the same height; their
  pixel columns are pairwise disjoint; each region starts where its predecessor ends;
  for \<open>rw \<ge> 0\<close> together they cover the columns from \<open>rx\<close> up to \<open>rx + rw - rw mod n\<close>; and
  the rightmost \<open>rw mod n\<close> columns of the capture area lie in no region.
\<close>

theorem auto_detect_tubes_even_split:
  assumes "1 \<le> n"
  shows "auto_detect_tubes shape frame (Some (rx, ry, rw, rh)) (Some n) d =
           Inr ((set_tube_count n d)
                  \<lparr>tube_regions := map (Some \<circ> split_region (rx, ry, rw, rh) n) [0..<nat n]\<rparr>,
                map (split_region (rx, ry, rw, rh) n) [0..<nat n]) \<and>
         length (map (split_region (rx, ry, rw, rh) n) [0..<nat n]) = nat n \<and>
         (\<forall>i < nat n. split_region (rx, ry, rw, rh) n i =
                          (rx + int i * (rw div n), ry, rw div n, rh)) \<and>
         (\<forall>i < nat n. \<forall>j < nat n. i \<noteq> j \<longrightarrow>
            columns (split_region (rx, ry, rw, rh) n i) \<inter>
            columns (split_region (rx, ry, rw, rh) n j) = {}) \<and>
         (\<forall>i. Suc i < nat n \<longrightarrow>
            fst (split_region (rx, ry, rw, rh) n (Suc i)) =
            fst (split_region (rx, ry, rw, rh) n i) + rw div n) \<and>
         (0 \<le> rw \<longrightarrow>
            (\<Union>i<nat n. columns (split_region (rx, ry, rw, rh) n i)) =
              {rx ..< rx + rw - rw mod n}) \<and>
         (\<forall>c \<in> {rx + rw - rw mod n ..< rx + rw}. \<forall>i < nat n.
            c \<notin> columns (split_region (rx, ry, rw, rh) n i)) \<and>
         card {rx + rw - rw mod n ..< rx + rw} = nat (rw mod n)"
proof -
  have n0: "n \<noteq> 0" "0 < n" using assms by simp_all
  have disj: "columns (split_region (rx, ry, rw, rh) n i) \<inter>
              columns (split_region (rx, ry, rw, rh) n j) = {}" if "i \<noteq> j" for i j
  proof (cases "i < j")
    case True
    then show ?thesis by (rule columns_disjoint)
  next
    case False
    with that have "j < i" by simp
    then show ?thesis using columns_disjoint [of j i] by (simp add: Int_commute)
  qed
  have rest: "c \<notin> columns (split_region (rx, ry, rw, rh) n i)"
    if "c \<in> {rx + rw - rw mod n ..< rx + rw}" "i < nat n" for c i
    using columns_below_remainder [OF n0(2) that(2)] that(1) by fastforce
  have "0 \<le> rw mod n" using n0 by simp
  then have card: "card {rx + rw - rw mod n ..< rx + rw} = nat (rw mod n)" by simp
  show ?thesis
    using auto_detect_tubes_result [OF n0(1)] disj rest card columns_union [OF n0(2)]
    by (simp add: split_region_def algebra_simps)
qed

text \<open>
  A capture area of width 403 divided into 4 tubes: four regions of width 100, and the
  three columns 500, 501 and 502 are left over.
\<close>

theorem auto_detect_tubes_even_split_witness:
  "(1::int) \<le> 4 \<and>
   auto_detect_tubes (\<lambda>f. (480, 640)) one_blob_frame (Some (100, 50, 403, 300)) (Some 4) (init 5) =
     Inr ((set_tube_count 4 (init 5))
            \<lparr>tube_regions := [Some (100, 50, 100, 300), Some (200, 50, 100, 300),
                              Some (300, 50, 100, 300), Some (400, 50, 100, 300)]\<rparr>,
          [(100, 50, 100, 300), (200, 50, 100, 300), (300, 50, 100, 300), (400, 50, 100, 300)]) \<and>
   columns (100, 50, 100, 300) \<inter> columns (200, 50, 100, 300) = {} \<and>
   (500::int) \<notin> columns (400, 50, 100, 300) \<and>
   card {500 ..< (503::int)} = 3"
proof -
  have n: "(1::int) \<le> 4" by simp
  have eq: "[0..<4] = [0, 1, 2, Suc 2]" by (simp add: upt_rec numeral_eq_Suc)
  note t = auto_detect_tubes_even_split [OF n, of "\<lambda>f. (480, 640)" one_blob_frame 100 50 403 300 "init 5"]
  have a: "(0::nat) < nat 4" "(1::nat) < nat 4" "(3::nat) < nat 4" "(0::nat) \<noteq> 1" by simp_all
  have s: "split_region (100, 50, 403, 300) 4 0 = (100, 50, 100, 300)"
    "split_region (100, 50, 403, 300) 4 1 = (200, 50, 100, 300)"
    "split_region (100, 50, 403, 300) 4 2 = (300, 50, 100, 300)"
    "split_region (100, 50, 403, 300) 4 3 = (400, 50, 100, 300)"
    by (simp_all add: split_region_def)
  from t have t1: "auto_detect_tubes (\<lambda>f. (480, 640)) one_blob_frame (Some (100, 50, 403, 300)) (Some 4) (init 5) =
     Inr ((set_tube_count 4 (init 5))
            \<lparr>tube_regions := [Some (100, 50, 100, 300), Some (200, 50, 100, 300),
                              Some (300, 50, 100, 300), Some (400, 50, 100, 300)]\<rparr>,
          [(100, 50, 100, 300), (200, 50, 100, 300), (300, 50, 100, 300), (400, 50, 100, 300)])"
    by (simp add: eq s)
  show ?thesis using n t1 by (simp add: columns_def)
qed

subsection \<open>Genotype comparison\<close>

lemma genotype_loop_eq:
  assumes "well_formed d" "\<forall>i \<in> set ixs. i < nat (tube_count d)"
  shows "genotype_loop ixs d acc = Inr (acc @ map (entry_of d) (filter (listed d) ixs))"
  using assms
  by (induction ixs arbitrary: acc) (simp_all add: well_formed_def entry_of_def listed_def)

lemma py_sort_desc_filter:
  "filter (\<lambda>y. f y = k) (py_sort_desc f xs) = filter (\<lambda>y. f y = k) xs"
  by (simp add: py_sort_desc_def sort_key_stable flip: rev_filter)

lemma set_py_sort_desc: "set (py_sort_desc f xs) = set xs"
  by (simp add: py_sort_desc_def)

lemma distinct_py_sort_desc: "distinct (py_sort_desc f xs) = distinct xs"
  by (simp add: py_sort_desc_def)

lemma py_sort_desc_descending: "sorted (rev (map f (py_sort_desc f xs)))"
  by (simp add: py_sort_desc_def rev_map)

lemma insort_key_ranked:
  fixes f :: "'a \<Rightarrow> 'k::linorder" and g :: "'a \<Rightarrow> nat"
  assumes "sorted_wrt (\<lambda>a b. f a < f b \<or> (f a = f b \<and> g b < g a)) ys"
    and "\<forall>y \<in> set ys. g y < g z"
  shows "sorted_wrt (\<lambda>a b. f a < f b \<or> (f a = f b \<and> g b < g a)) (insort_key f z ys)"
  using assms
proof (induction ys)
  case Nil
  then show ?case by simp
next
  case (Cons y ys)
  show ?case
  proof (cases "f z \<le> f y")
    case True
    have "f z < f b \<or> (f z = f b \<and> g b < g z)" if "b \<in> set (y # ys)" for b
    proof -
      have "f y \<le> f b" using that Cons.prems(1) by auto
      with True have "f z \<le> f b" by simp
      moreover have "g b < g z" using that Cons.prems(2) by auto
      ultimately show ?thesis by auto
    qed
    with True Cons.prems(1) show ?thesis by simp
  next
    case False
    with Cons show ?thesis by (auto simp: set_insort_key)
  qed
qed

lemma sort_key_ranked:
  fixes f :: "'a \<Rightarrow> 'k::linorder" and g :: "'a \<Rightarrow> nat"
  assumes "sorted_wrt (\<lambda>a b. g b < g a) zs"
  shows "sorted_wrt (\<lambda>a b. f a < f b \<or> (f a = f b \<and> g b < g a)) (sort_key f zs)"
  using assms
  by (induction zs) (simp_all add: insort_key_ranked)

lemma py_sort_desc_ranked:
  fixes f :: "'a \<Rightarrow> 'k::linorder" and g :: "'a \<Rightarrow> nat"
  assumes "sorted_wrt (\<lambda>a b. g a < g b) xs"
  shows "sorted_wrt (\<lambda>a b. f a > f b \<or> (f a = f b \<and> g a < g b)) (py_sort_desc f xs)"
proof -
  have "sorted_wrt (\<lambda>a b. g b < g a) (rev xs)"
    using assms by (simp add: sorted_wrt_rev)
  then have "sorted_wrt (\<lambda>a b. f a < f b \<or> (f a = f b \<and> g b < g a)) (sort_key f (rev xs))"
    by (rule sort_key_ranked)
  then show ?thesis
    unfolding py_sort_desc_def sorted_wrt_rev
    by (rule sorted_wrt_mono_rel [rotated]) auto
qed

lemma entries_index_increasing:
  "sorted_wrt (\<lambda>a b. e_index a < e_index b) (map (entry_of d) (filter (listed d) [0..<n]))"
proof -
  have "sorted_wrt (<) (filter (listed d) [0..<n])"
    by (rule sorted_wrt_filter) (simp add: sorted_wrt_upt)
  then show ?thesis
    by (simp add: sorted_wrt_map entry_of_def)
qed

text \<open>
  C8 (amended). On a well-formed detector \<open>compare_genotypes\<close> returns normally. Its
  result holds exactly one entry, carrying the label, the index and the maximum, average
  and current height, for every tube whose region is set and whose detection history is
  non-empty, and no other entry. The entries are in descending order of the average
  height, and entries of equal average are in ascending order of the tube index.
\<close>

theorem compare_genotypes_ranking:
  assumes "well_formed d"
  shows "\<exists>res. compare_genotypes d = Inr res \<and>
           distinct res \<and>
           set res = entry_of d ` {i. i < nat (tube_count d) \<and> listed d i} \<and>
           sorted_wrt ranks_before res"
proof -
  let ?gd = "map (entry_of d) (filter (listed d) [0..<nat (tube_count d)])"
  have loop: "genotype_loop [0..<nat (tube_count d)] d [] = Inr ?gd"
    using genotype_loop_eq [OF assms, of "[0..<nat (tube_count d)]" "[]"] by simp
  have res: "compare_genotypes d = Inr (py_sort_desc e_avg_height ?gd)"
    by (simp add: compare_genotypes_def loop)
  have inj: "inj_on (entry_of d) A" for A
    by (rule inj_onI) (simp add: entry_of_def)
  have d: "distinct ?gd"
    by (simp add: distinct_map inj)
  have s: "set ?gd = entry_of d ` {i. i < nat (tube_count d) \<and> listed d i}"
    by auto
  have r: "sorted_wrt ranks_before (py_sort_desc e_avg_height ?gd)"
    using py_sort_desc_ranked [OF entries_index_increasing, of e_avg_height d "nat (tube_count d)"]
    by (simp add: ranks_before_def [abs_def])
  show ?thesis
    using res d s r by (simp add: distinct_py_sort_desc set_py_sort_desc)
qed

theorem compare_genotypes_ranking_witness:
  "well_formed ranking_detector \<and>
   compare_genotypes ranking_detector =
     Inr [GenotypeEntry ''b'' 1 55 55 55, GenotypeEntry ''a'' 0 40 40 40,
          GenotypeEntry ''d'' 3 40 40 40] \<and>
   (\<exists>res. compare_genotypes ranking_detector = Inr res \<and> distinct res \<and>
          set res = entry_of ranking_detector `
                      {i. i < nat (tube_count ranking_detector) \<and> listed ranking_detector i} \<and>
          sorted_wrt ranks_before res)"
proof -
  have w: "well_formed ranking_detector"
    by (simp add: well_formed_def ranking_detector_def)
  have eq: "[0..<4] = [0, 1, 2, Suc 2]"
    by (simp add: upt_rec numeral_eq_Suc)
  have c: "compare_genotypes ranking_detector =
     Inr [GenotypeEntry ''b'' 1 55 55 55, GenotypeEntry ''a'' 0 40 40 40,
          GenotypeEntry ''d'' 3 40 40 40]"
    by (simp add: compare_genotypes_def ranking_detector_def eq py_sort_desc_def)
  show ?thesis
    using compare_genotypes_ranking [OF w] w c by simp
qed

text \<open>
  The claim as worded lists every tube with a non-empty history. After
  \<open>set_tube_region 0 None\<close> on the sample detector, tube 0 still has the history \<open>[55]\<close>
  and no entry.
\<close>

theorem compare_genotypes_unset_region_counterexample:
  "set_tube_region 0 None sample_detector = Inr unset_region_detector \<and>
   well_formed unset_region_detector \<and>
   detection_history unset_region_detector ! 0 = [55] \<and>
   compare_genotypes unset_region_detector = Inr []"
  by (simp add: set_tube_region_def sample_detector_def unset_region_detector_def
      well_formed_def compare_genotypes_def py_sort_desc_def upt_rec numeral_eq_Suc)

subsection \<open>Detection history across passes\<close>

text \<open>What the two loops of a pass do to the history lists.\<close>

lemma clear_history_result:
  "clear_history ixs hist = Inr hist' \<Longrightarrow>
     length hist' = length hist \<and>
     (\<forall>i \<in> set ixs. i < length hist \<and> hist' ! i = []) \<and>
     (\<forall>j. j \<notin> set ixs \<longrightarrow> hist' ! j = hist ! j)"
proof (induction ixs arbitrary: hist)
  case Nil
  then show ?case by simp
next
  case (Cons i ixs)
  from Cons.prems have i: "i < length hist"
    and rest: "clear_history ixs (hist[i := []]) = Inr hist'"
    by (simp_all split: if_splits)
  note ih = Cons.IH [OF rest]
  have "hist' ! i = []"
  proof (cases "i \<in> set ixs")
    case True
    with ih show ?thesis by simp
  next
    case False
    with ih i show ?thesis by simp
  qed
  with ih i show ?case by (auto simp: nth_list_update)
qed

lemma contour_loop_result:
  "contour_loop r i cs flies hist = Inr (flies', hist') \<Longrightarrow>
     \<exists>new. flies' = flies @ new \<and> hist' = hist[i := hist ! i @ map fly_height new]"
proof (induction r i cs flies hist rule: contour_loop.induct)
  case (1 r i flies hist)
  then show ?case by simp
next
  case (2 x y w h i c cs flies hist)
  show ?case
  proof (cases "c_m00 c \<noteq> 0")
    case False
    with 2 show ?thesis by simp
  next
    case True
    let ?fly = "(x + py_trunc (c_m10 c / c_m00 c), y + py_trunc (c_m01 c / c_m00 c),
                 h - py_trunc (c_m01 c / c_m00 c))"
    from True "2.prems" have i: "i < length hist"
      by (simp add: Let_def split: if_splits)
    from True i "2.prems" have
      "contour_loop (x, y, w, h) i cs (flies @ [?fly])
         (hist[i := hist ! i @ [h - py_trunc (c_m01 c / c_m00 c)]]) = Inr (flies', hist')"
      by (simp add: Let_def)
    from "2.IH"(1) [OF True refl refl refl refl refl i this]
    obtain new where new: "flies' = (flies @ [?fly]) @ new"
      "hist' = (hist[i := hist ! i @ [h - py_trunc (c_m01 c / c_m00 c)]])
                 [i := (hist[i := hist ! i @ [h - py_trunc (c_m01 c / c_m00 c)]]) ! i @ map fly_height new]"
      by blast
    have "flies' = flies @ (?fly # new)" using new(1) by simp
    moreover have "hist' = hist[i := hist ! i @ map fly_height (?fly # new)]"
      using new(2) i by (simp add: fly_height_def)
    ultimately show ?thesis by blast
  qed
qed

lemma update_tube_fields:
  "update_tube i flies d = Inr d' \<Longrightarrow>
     detection_history d' = detection_history d \<and> tube_count d' = tube_count d \<and>
     tube_regions d' = tube_regions d \<and> background_frame d' = background_frame d"
  by (auto simp: update_tube_def Let_def split: if_splits)

lemma detect_tube_result:
  assumes "detect_tube cv frame i d = Inr (d', flies)"
  shows "detection_history d' =
           (detection_history d)[i := detection_history d ! i @ map fly_height flies] \<and>
         tube_count d' = tube_count d"
proof (cases "tube_regions d ! i")
  case None
  with assms show ?thesis
    by (simp add: detect_tube_def split: if_splits)
next
  case (Some r)
  from assms Some obtain bg contours hist where
    cl: "contour_loop r i
           (filter (\<lambda>c. of_int (min_area d) \<le> c_area c \<and> c_area c \<le> of_int (max_area d)) contours)
           [] (detection_history d) = Inr (flies, hist)"
    and up: "update_tube i flies (d\<lparr>detection_history := hist\<rparr>) = Inr d'"
    by (auto simp: detect_tube_def Let_def split: if_splits option.splits sum.splits)
  from contour_loop_result [OF cl]
  have "hist = (detection_history d)[i := detection_history d ! i @ map fly_height flies]"
    by simp
  with update_tube_fields [OF up] show ?thesis by simp
qed

lemma tube_loop_keeps:
  "tube_loop cv frame ixs d results = Inr (d', results') \<Longrightarrow> j \<notin> set ixs \<Longrightarrow>
     detection_history d' ! j = detection_history d ! j"
proof (induction ixs arbitrary: d results)
  case Nil
  then show ?case by simp
next
  case (Cons i ixs)
  from Cons.prems(1) obtain d1 flies where
    step: "detect_tube cv frame i d = Inr (d1, flies)"
    and rest: "tube_loop cv frame ixs d1 (results @ [flies]) = Inr (d', results')"
    by (auto split: sum.splits)
  from Cons.prems(2) have "j \<noteq> i" "j \<notin> set ixs" by simp_all
  with Cons.IH [OF rest] detect_tube_result [OF step] show ?case by simp
qed

lemma tube_loop_result:
  "tube_loop cv frame ixs d results = Inr (d', results') \<Longrightarrow> distinct ixs \<Longrightarrow>
   \<forall>i \<in> set ixs. i < length (detection_history d) \<Longrightarrow>
     tube_count d' = tube_count d \<and>
     (\<exists>news. length news = length ixs \<and> results' = results @ news \<and>
        (\<forall>k < length ixs.
           detection_history d' ! (ixs ! k) =
             detection_history d ! (ixs ! k) @ map fly_height (news ! k)))"
proof (induction ixs arbitrary: d results)
  case Nil
  then show ?case by simp
next
  case (Cons i ixs)
  from Cons.prems(1) obtain d1 flies where
    step: "detect_tube cv frame i d = Inr (d1, flies)"
    and rest: "tube_loop cv frame ixs d1 (results @ [flies]) = Inr (d', results')"
    by (auto split: sum.splits)
  note dt = detect_tube_result [OF step]
  from Cons.prems(3) have i: "i < length (detection_history d)" by simp
  from dt Cons.prems(3) have len: "\<forall>j \<in> set ixs. j < length (detection_history d1)"
    by simp
  from Cons.prems(2) have dist: "distinct ixs" and notin: "i \<notin> set ixs" by simp_all
  from Cons.IH [OF rest dist len] obtain news where
    tc: "tube_count d' = tube_count d1"
    and news: "length news = length ixs" "results' = (results @ [flies]) @ news"
      "\<forall>k < length ixs. detection_history d' ! (ixs ! k) =
          detection_history d1 ! (ixs ! k) @ map fly_height (news ! k)"
    by blast
  have first: "detection_history d' ! i = detection_history d ! i @ map fly_height flies"
    using tube_loop_keeps [OF rest notin] dt i by simp
  have later: "detection_history d' ! (ixs ! k) =
                 detection_history d ! (ixs ! k) @ map fly_height (news ! k)"
    if "k < length ixs" for k
  proof -
    from that notin have "ixs ! k \<noteq> i" by (metis nth_mem)
    with news(3) that dt show ?thesis by simp
  qed
  have "\<forall>k < length (i # ixs).
          detection_history d' ! ((i # ixs) ! k) =
            detection_history d ! ((i # ixs) ! k) @ map fly_height ((flies # news) ! k)"
  proof (intro allI impI)
    fix k assume "k < length (i # ixs)"
    then show "detection_history d' ! ((i # ixs) ! k) =
                 detection_history d ! ((i # ixs) ! k) @ map fly_height ((flies # news) ! k)"
      using first later by (cases k) simp_all
  qed
  moreover have "length (flies # news) = length (i # ixs)" using news(1) by simp
  moreover have "results' = results @ (flies # news)" using news(2) by simp
  moreover have "tube_count d' = tube_count d" using tc dt by simp
  ultimately show ?case by blast
qed

lemma detect_all_tubes_history:
  assumes "detect_all_tubes cv frame d = Inr (d', results)"
  shows "tube_count d' = tube_count d \<and> length results = nat (tube_count d) \<and>
         (\<forall>i < nat (tube_count d). detection_history d' ! i = map fly_height (results ! i))"
proof -
  let ?n = "nat (tube_count d)"
  from assms obtain hist where
    clr: "clear_history [0..<?n] (detection_history d) = Inr hist"
    and loop: "tube_loop cv frame [0..<?n] (d\<lparr>detection_history := hist\<rparr>) [] = Inr (d', results)"
    by (auto simp: detect_all_tubes_def split: sum.splits)
  note c = clear_history_result [OF clr]
  have bound: "\<forall>i \<in> set [0..<?n]. i < length (detection_history (d\<lparr>detection_history := hist\<rparr>))"
    using c by simp
  from tube_loop_result [OF loop _ bound] obtain news where
    tc: "tube_count d' = tube_count d"
    and news: "length news = ?n" "results = news"
      "\<forall>k < ?n. detection_history d' ! ([0..<?n] ! k) = hist ! ([0..<?n] ! k) @ map fly_height (news ! k)"
    by auto
  have "detection_history d' ! i = map fly_height (results ! i)" if "i < ?n" for i
    using news(2,3) c that by simp
  with tc news show ?thesis by simp
qed

text \<open>
  A pass returns normally on a well-formed detector with a background, provided the
  OpenCV pipeline does; the detector stays well-formed.
\<close>

lemma clear_history_returns:
  "\<forall>i \<in> set ixs. i < length hist \<Longrightarrow> \<exists>hist'. clear_history ixs hist = Inr hist'"
  by (induction ixs arbitrary: hist) simp_all

lemma contour_loop_returns:
  "i < length hist \<Longrightarrow>
   \<exists>flies' hist'. contour_loop r i cs flies hist = Inr (flies', hist') \<and>
      length hist' = length hist"
proof (induction r i cs flies hist rule: contour_loop.induct)
  case (1 r i flies hist)
  then show ?case by simp
next
  case (2 x y w h i c cs flies hist)
  then show ?case by (cases "c_m00 c = 0") (simp_all add: Let_def)
qed

lemma update_tube_returns:
  assumes "well_formed d" "i < nat (tube_count d)"
  shows "\<exists>d'. update_tube i flies d = Inr d' \<and> well_formed d' \<and>
           background_frame d' = background_frame d \<and> threshold d' = threshold d"
  using assms by (simp add: update_tube_def well_formed_def Let_def)

lemma detect_tube_returns:
  assumes "well_formed d" "i < nat (tube_count d)" "background_frame d = Some bg"
    and "\<forall>r. \<exists>cs. cv frame bg r (threshold d) = Inr cs"
  shows "\<exists>d' flies. detect_tube cv frame i d = Inr (d', flies) \<and> well_formed d' \<and>
           tube_count d' = tube_count d \<and> background_frame d' = background_frame d \<and>
           threshold d' = threshold d"
proof (cases "tube_regions d ! i")
  case None
  with assms show ?thesis by (simp add: detect_tube_def well_formed_def)
next
  case (Some r)
  from assms(4) obtain cs where cs: "cv frame bg r (threshold d) = Inr cs" by blast
  let ?valid = "filter (\<lambda>c. of_int (min_area d) \<le> c_area c \<and> c_area c \<le> of_int (max_area d)) cs"
  from assms(1,2) have "i < length (detection_history d)" by (simp add: well_formed_def)
  from contour_loop_returns [OF this, of r ?valid "[]"] obtain flies hist where
    cl: "contour_loop r i ?valid [] (detection_history d) = Inr (flies, hist)"
    and len: "length hist = length (detection_history d)" by blast
  have wf': "well_formed (d\<lparr>detection_history := hist\<rparr>)"
    using assms(1) len by (simp add: well_formed_def)
  from update_tube_returns [OF wf', of i flies] assms(2) obtain d' where
    up: "update_tube i flies (d\<lparr>detection_history := hist\<rparr>) = Inr d'" "well_formed d'"
      "background_frame d' = background_frame d" "threshold d' = threshold d"
    by auto
  have "tube_count d' = tube_count d" using update_tube_fields [OF up(1)] by simp
  moreover have "detect_tube cv frame i d = Inr (d', flies)"
    using assms(1,2,3) Some cs cl up(1) by (simp add: detect_tube_def well_formed_def Let_def)
  ultimately show ?thesis using up by simp
qed

lemma tube_loop_returns:
  assumes "well_formed d" "\<forall>i \<in> set ixs. i < nat (tube_count d)" "background_frame d = Some bg"
    and "\<forall>r. \<exists>cs. cv frame bg r (threshold d) = Inr cs"
  shows "\<exists>d' results'. tube_loop cv frame ixs d results = Inr (d', results') \<and> well_formed d'"
  using assms
proof (induction ixs arbitrary: d results)
  case Nil
  then show ?case by simp
next
  case (Cons i ixs)
  from Cons.prems have "i < nat (tube_count d)" by simp
  from detect_tube_returns [where cv = cv and frame = frame, OF Cons.prems(1) this Cons.prems(3,4)]
  obtain d1 flies where
    d1: "detect_tube cv frame i d = Inr (d1, flies)" "well_formed d1"
      "tube_count d1 = tube_count d" "background_frame d1 = background_frame d"
      "threshold d1 = threshold d" by blast
  have "\<exists>d' results'. tube_loop cv frame ixs d1 (results @ [flies]) = Inr (d', results') \<and>
          well_formed d'"
    using Cons.prems d1 by (intro Cons.IH) simp_all
  with d1(1) show ?case by simp
qed

lemma detect_all_tubes_returns:
  assumes "well_formed d" "background_frame d = Some bg"
    and "\<forall>r. \<exists>cs. cv frame bg r (threshold d) = Inr cs"
  shows "\<exists>d' results. detect_all_tubes cv frame d = Inr (d', results) \<and> well_formed d'"
proof -
  let ?n = "nat (tube_count d)"
  have "\<forall>i \<in> set [0..<?n]. i < length (detection_history d)"
    using assms(1) by (simp add: well_formed_def)
  from clear_history_returns [OF this] obtain hist where
    clr: "clear_history [0..<?n] (detection_history d) = Inr hist" by blast
  have len: "length hist = length (detection_history d)"
    using clear_history_result [OF clr] by simp
  have wf': "well_formed (d\<lparr>detection_history := hist\<rparr>)"
    using assms(1) len by (simp add: well_formed_def)
  from tube_loop_returns [where cv = cv and frame = frame and ixs = "[0..<?n]" and results = "[]",
      OF wf' _ _ _] assms(2,3)
  obtain d' results where
    "tube_loop cv frame [0..<?n] (d\<lparr>detection_history := hist\<rparr>) [] = Inr (d', results)"
    "well_formed d'" by auto
  with clr show ?thesis by (simp add: detect_all_tubes_def)
qed

text \<open>The sample states are reached by the detector's own operations.\<close>

lemma prepared_detector_reached:
  "set_tube_region 0 (Some (100, 50, 100, 300)) (init 2) = Inr d1 \<Longrightarrow>
   set_genotype_name 0 ''w1118'' d1 = Inr d2 \<Longrightarrow>
   set_background (Some []) d2 = prepared_detector"
  by (auto simp: set_tube_region_def set_genotype_name_def set_background_def init_def
      prepared_detector_def upt_rec numeral_eq_Suc)

lemma first_pass_sample:
  "detect_all_tubes sample_cv one_blob_frame prepared_detector =
     Inr (sample_detector, [[(150, 295, 55)], []])"
  by (simp add: detect_all_tubes_def prepared_detector_def init_def sample_detector_def
      detect_tube_def sample_cv_def one_blob_frame_def update_tube_def py_trunc_def py_max_def
      upt_rec numeral_eq_Suc Let_def)

lemma second_pass_sample:
  "detect_all_tubes sample_cv one_blob_frame sample_detector =
     Inr (sample_detector, [[(150, 295, 55)], []])"
  by (simp add: detect_all_tubes_def sample_detector_def
      detect_tube_def sample_cv_def one_blob_frame_def update_tube_def py_trunc_def py_max_def
      upt_rec numeral_eq_Suc Let_def)

text \<open>
  C2 (amended). For every two successive detection passes with nothing in between, the
  history of every tube after the second pass consists of exactly the heights the second
  pass observed in that tube, in discovery order: a pass first empties every tube's
  history and then appends the heights it observes, so nothing of the first pass is
  retained.
\<close>

theorem two_passes_keep_second_only:
  assumes "detect_all_tubes cv frame1 d = Inr (d1, results1)"
    and "detect_all_tubes cv frame2 d1 = Inr (d2, results2)"
  shows "\<forall>i < nat (tube_count d). detection_history d2 ! i = map fly_height (results2 ! i)"
  using detect_all_tubes_history [OF assms(1)] detect_all_tubes_history [OF assms(2)]
  by simp

theorem two_passes_keep_second_only_witness:
  "detect_all_tubes sample_cv one_blob_frame prepared_detector =
     Inr (sample_detector, [[(150, 295, 55)], []]) \<and>
   detect_all_tubes sample_cv one_blob_frame sample_detector =
     Inr (sample_detector, [[(150, 295, 55)], []]) \<and>
   nat (tube_count prepared_detector) = 2 \<and>
   detection_history sample_detector ! 0 = map fly_height ([[(150, 295, 55)], []] ! 0) \<and>
   detection_history sample_detector ! 1 = map fly_height ([[(150, 295, 55)], []] ! 1)"
proof -
  have n: "nat (tube_count prepared_detector) = 2"
    by (simp add: prepared_detector_def init_def)
  from two_passes_keep_second_only [OF first_pass_sample second_pass_sample] n
  have "detection_history sample_detector ! 0 = map fly_height ([[(150, 295, 55)], []] ! 0)"
    and "detection_history sample_detector ! 1 = map fly_height ([[(150, 295, 55)], []] ! 1)"
    by simp_all
  with first_pass_sample second_pass_sample n show ?thesis by simp
qed

text \<open>
  The claim as worded has the second pass extend the history of the first. Two passes
  over the same frame, each observing one fly of height 55 in tube 0: the history after
  the second pass is \<open>[55]\<close>, not \<open>[55, 55]\<close>.
\<close>

theorem history_not_accumulated_counterexample:
  "detect_all_tubes sample_cv one_blob_frame prepared_detector =
     Inr (sample_detector, [[(150, 295, 55)], []]) \<and>
   detect_all_tubes sample_cv one_blob_frame sample_detector =
     Inr (sample_detector, [[(150, 295, 55)], []]) \<and>
   detection_history sample_detector ! 0 = [55] \<and>
   detection_history sample_detector ! 0 @ map fly_height ([[(150, 295, 55)], []] ! 0) = [55, 55]"
  using first_pass_sample second_pass_sample
  by (simp add: sample_detector_def fly_height_def)

section \<open>Properties of the user interface methods\<close>

subsection \<open>Merging the detections of several frames\<close>

text \<open>
  The integer test of the model is the source's floating-point test, read over the
  reals: the square root of the squared distance is below 10.
\<close>

lemma distance_lt_10_sqrt:
  "distance_lt_10 fly_x fly_y existing_x existing_y \<longleftrightarrow>
     sqrt (real_of_int ((fly_x - existing_x)\<^sup>2 + (fly_y - existing_y)\<^sup>2)) < 10"
proof -
  let ?n = "(fly_x - existing_x)\<^sup>2 + (fly_y - existing_y)\<^sup>2"
  have "sqrt (real_of_int ?n) < 10 \<longleftrightarrow> sqrt (real_of_int ?n) < sqrt 100"
    by simp
  also have "\<dots> \<longleftrightarrow> real_of_int ?n < 100"
    by (rule real_sqrt_less_iff)
  also have "\<dots> \<longleftrightarrow> ?n < 100"
    by linarith
  finally show ?thesis
    by (simp add: distance_lt_10_def)
qed

lemma merge_frame_sequence:
  "merge_frame flies frame_idx fn ss cl =
     merge_sequence (map (\<lambda>fly. (fly, frame_idx)) flies) fn ss cl"
  by (induction flies arbitrary: cl) (simp_all split: sum.splits)

lemma merge_sequence_append:
  "merge_sequence (xs @ ys) fn ss cl =
     (case merge_sequence xs fn ss cl of Inl e \<Rightarrow> Inl e | Inr cl' \<Rightarrow> merge_sequence ys fn ss cl')"
  by (induction xs arbitrary: cl) (auto split: sum.splits)

lemma merge_frames_sequence:
  "\<forall>frame \<in> set frames. tube_idx < length frame \<Longrightarrow>
   merge_frames frames first_idx tube_idx fn ss cl =
     merge_sequence (tagged_blobs first_idx frames tube_idx) fn ss cl"
proof (induction frames arbitrary: first_idx cl)
  case Nil
  then show ?case by (simp add: tagged_blobs_def)
next
  case (Cons frame frames)
  then show ?case
    by (simp add: tagged_blobs_def merge_frame_sequence merge_sequence_append split: sum.splits)
qed

lemma merge_fly_new:
  assumes "make_info fly frame_idx fn ss = Inr info" "\<forall>(key, v) \<in> set cl. \<not> near_key fly key"
  shows "merge_fly fly frame_idx fn ss cl = Inr (cl @ [((fst fly, fst (snd fly)), info)])"
  using assms by (induction cl) (auto simp: near_key_def)

lemma merge_fly_first:
  assumes "make_info fly frame_idx fn ss = Inr info" "\<forall>(key, v) \<in> set pre. \<not> near_key fly key"
    and "near_key fly pos_key"
  shows "merge_fly fly frame_idx fn ss (pre @ (pos_key, existing) # post) =
           Inr (pre @ (pos_key, if snd (snd fly) > info_height existing then info else existing) # post)"
  using assms by (induction pre) (auto simp: near_key_def)

lemma make_info_ok:
  "frame_idx < length fn \<Longrightarrow> frame_idx < length ss \<Longrightarrow>
   make_info (x, y, h) frame_idx fn ss = Inr (FlyInfo x y h frame_idx (fn ! frame_idx) (ss ! frame_idx))"
  by (simp add: make_info_def)

lemma three_observations:
  assumes "length fn = 3" "length ss = 3"
    and "distance_lt_10 x2 y2 x1 y1" "distance_lt_10 x3 y3 x1 y1"
  shows "merge_detection_results [[[(x1, y1, 40)]], [[(x2, y2, 55)]], [[(x3, y3, 38)]]] fn ss =
           Inr [Some [(x2, y2, 55)]]"
  using assms
  by (simp add: merge_detection_results_def merge_tube_def make_info_def)

text \<open>
  C5 (amended). In the merge of one tube the blobs are processed in frame order and,
  within a frame, in discovery order. A blob is compared with the position of the blob
  that opened each existing cluster (the dictionary key, which never changes), not with
  the blob the cluster currently keeps: if no key is strictly within 10 pixels the blob
  opens a new cluster at the end; otherwise it is merged into the first cluster whose key
  is, and that cluster keeps the blob of larger height (the earlier one when the heights
  are equal). Three observations from three frames with heights 40, 55 and 38, the second
  and third within 10 pixels of the first, merge to exactly one blob, the one of height
  55.
\<close>

theorem cross_frame_merge:
  "((\<forall>frame \<in> set frames. tube_idx < length frame) \<longrightarrow>
      merge_frames frames 0 tube_idx fn ss [] =
        merge_sequence (tagged_blobs 0 frames tube_idx) fn ss []) \<and>
   (make_info fly frame_idx fn ss = Inr info \<longrightarrow>
      (\<forall>(key, v) \<in> set cl. \<not> near_key fly key) \<longrightarrow>
      merge_fly fly frame_idx fn ss cl = Inr (cl @ [((fst fly, fst (snd fly)), info)])) \<and>
   (make_info fly frame_idx fn ss = Inr info \<longrightarrow>
      (\<forall>(key, v) \<in> set pre. \<not> near_key fly key) \<longrightarrow> near_key fly pos_key \<longrightarrow>
      merge_fly fly frame_idx fn ss (pre @ (pos_key, existing) # post) =
        Inr (pre @ (pos_key, if fly_height fly > info_height existing then info else existing)
                   # post)) \<and>
   (length fn = 3 \<longrightarrow> length ss = 3 \<longrightarrow>
      distance_lt_10 xb yb xa ya \<longrightarrow> distance_lt_10 xc yc xa ya \<longrightarrow>
      merge_detection_results [[[(xa, ya, 40)]], [[(xb, yb, 55)]], [[(xc, yc, 38)]]] fn ss =
        Inr [Some [(xb, yb, 55)]])"
proof -
  have h: "fly_height fly = snd (snd fly)"
    by (cases fly) (simp add: fly_height_def)
  show ?thesis
    using merge_frames_sequence [of frames tube_idx 0 fn ss "[]"]
      merge_fly_new [of fly frame_idx fn ss info cl]
      merge_fly_first [of fly frame_idx fn ss info pre pos_key existing post]
      three_observations [of fn ss xb yb xa ya xc yc]
    by (simp add: h)
qed

theorem cross_frame_merge_witness:
  "merge_frames [[[(0, 0, 40)]], [[(3, 4, 55)]], [[(1, 1, 38)]]] 0 0 [7, 8, 9] [1, 2, 3 :: int] [] =
     merge_sequence [((0, 0, 40), 0), ((3, 4, 55), 1), ((1, 1, 38), 2)] [7, 8, 9] [1, 2, 3] [] \<and>
   merge_fly (50, 50, 10) 2 [7, 8, 9] [1, 2, 3 :: int] [((0, 0), FlyInfo 3 4 55 1 8 2)] =
     Inr [((0, 0), FlyInfo 3 4 55 1 8 2), ((50, 50), FlyInfo 50 50 10 2 9 3)] \<and>
   merge_fly (3, 4, 55) 1 [7, 8, 9] [1, 2, 3 :: int]
       ([((100, 100), FlyInfo 100 100 5 0 7 1)] @ ((0, 0), FlyInfo 0 0 40 0 7 1) # []) =
     Inr [((100, 100), FlyInfo 100 100 5 0 7 1), ((0, 0), FlyInfo 3 4 55 1 8 2)] \<and>
   merge_detection_results [[[(0, 0, 40)]], [[(3, 4, 55)]], [[(1, 1, 38)]]] [7, 8, 9] [1, 2, 3 :: int] =
     Inr [Some [(3, 4, 55)]]"
proof -
  have a: "\<forall>frame \<in> set [[[(0, 0, 40)]], [[(3, 4, 55)]], [[(1, 1, 38 :: int)]]]. 0 < length frame"
    by simp
  have tg: "tagged_blobs 0 [[[(0, 0, 40)]], [[(3, 4, 55)]], [[(1, 1, 38)]]] 0 =
              [((0, 0, 40), 0), ((3, 4, 55), 1), ((1, 1, 38), 2)]"
    by (simp add: tagged_blobs_def numeral_2_eq_2)
  have i1: "make_info (50, 50, 10) 2 [7, 8, 9] [1, 2, 3 :: int] = Inr (FlyInfo 50 50 10 2 9 3)"
    by (simp add: make_info_def)
  have n1: "\<forall>(key, v) \<in> set [((0, 0), FlyInfo 3 4 55 1 8 (2::int))]. \<not> near_key (50, 50, 10) key"
    by (simp add: near_key_def distance_lt_10_def)
  have i2: "make_info (3, 4, 55) 1 [7, 8, 9] [1, 2, 3 :: int] = Inr (FlyInfo 3 4 55 1 8 2)"
    by (simp add: make_info_def)
  have n2: "\<forall>(key, v) \<in> set [((100, 100), FlyInfo 100 100 5 0 7 (1::int))]. \<not> near_key (3, 4, 55) key"
    by (simp add: near_key_def distance_lt_10_def)
  have n3: "near_key (3, 4, 55) (0, 0)"
    by (simp add: near_key_def distance_lt_10_def)
  have l: "length [7, 8, 9 :: int] = 3" "length [1, 2, 3 :: int] = 3"
    by simp_all
  have d: "distance_lt_10 3 4 0 0" "distance_lt_10 1 1 0 0"
    by (simp_all add: distance_lt_10_def)
  note t1 = cross_frame_merge [where frames = "[[[(0, 0, 40)]], [[(3, 4, 55)]], [[(1, 1, 38)]]]"
      and tube_idx = 0 and fn = "[7, 8, 9]" and ss = "[1, 2, 3 :: int]"
      and fly = "(50, 50, 10)" and frame_idx = 2 and info = "FlyInfo 50 50 10 2 9 3"
      and cl = "[((0, 0), FlyInfo 3 4 55 1 8 2)]"
      and xa = 0 and ya = 0 and xb = 3 and yb = 4 and xc = 1 and yc = 1]
  note t2 = cross_frame_merge [where fn = "[7, 8, 9]" and ss = "[1, 2, 3 :: int]"
      and fly = "(3, 4, 55)" and frame_idx = 1 and info = "FlyInfo 3 4 55 1 8 2"
      and pre = "[((100, 100), FlyInfo 100 100 5 0 7 1)]" and pos_key = "(0, 0)"
      and existing = "FlyInfo 0 0 40 0 7 1" and post = "[]"]
  from t1 a tg have c1: "merge_frames [[[(0, 0, 40)]], [[(3, 4, 55)]], [[(1, 1, 38)]]] 0 0 [7, 8, 9] [1, 2, 3 :: int] [] =
     merge_sequence [((0, 0, 40), 0), ((3, 4, 55), 1), ((1, 1, 38), 2)] [7, 8, 9] [1, 2, 3] []"
    by simp
  from t1 i1 n1 have c2: "merge_fly (50, 50, 10) 2 [7, 8, 9] [1, 2, 3 :: int] [((0, 0), FlyInfo 3 4 55 1 8 2)] =
     Inr [((0, 0), FlyInfo 3 4 55 1 8 2), ((50, 50), FlyInfo 50 50 10 2 9 3)]"
    by simp
  from t2 i2 n2 n3 have c3: "merge_fly (3, 4, 55) 1 [7, 8, 9] [1, 2, 3 :: int]
       ([((100, 100), FlyInfo 100 100 5 0 7 1)] @ ((0, 0), FlyInfo 0 0 40 0 7 1) # []) =
     Inr [((100, 100), FlyInfo 100 100 5 0 7 1), ((0, 0), FlyInfo 3 4 55 1 8 2)]"
    by (simp add: fly_height_def)
  from t1 l d have c4: "merge_detection_results [[[(0, 0, 40)]], [[(3, 4, 55)]], [[(1, 1, 38)]]] [7, 8, 9] [1, 2, 3 :: int] =
     Inr [Some [(3, 4, 55)]]"
    by simp
  from c1 c2 c3 c4 show ?thesis by simp
qed

text \<open>
  The claim as worded measures the distance to the cluster's representative. Blobs at
  \<open>(0, 0)\<close>, \<open>(9, 0)\<close> and \<open>(18, 0)\<close> with heights 10, 20 and 5: the second replaces
  the first as representative; the third is 9 pixels from that representative but 18
  pixels from the key \<open>(0, 0)\<close>, and the source opens a second cluster for it, where the
  merge as worded gives one blob.
\<close>

theorem merge_distance_to_representative_counterexample:
  "merge_detection_results [[[(0, 0, 10)]], [[(9, 0, 20)]], [[(18, 0, 5)]]] [1, 2, 3] [0, 0, 0 :: int] =
     Inr [Some [(9, 0, 20), (18, 0, 5)]] \<and>
   spec_merge_region [(0, 0, 10), (9, 0, 20), (18, 0, 5)] = [(9, 0, 20)] \<and>
   distance_lt_10 18 0 9 0 \<and> \<not> distance_lt_10 18 0 0 0"
  by (simp add: merge_detection_results_def merge_tube_def make_info_def spec_merge_region_def
      distance_lt_10_def)

subsection \<open>Manual selection and undo\<close>

lemma remove_first_match_Cons:
  "remove_first_match fly_x fh (fly # rest) =
     (if matches fly_x fh fly then rest else fly # remove_first_match fly_x fh rest)"
  by (cases fly) (simp add: matches_def)

lemma remove_first_match_none:
  "\<forall>fly \<in> set flies. \<not> matches fly_x fh fly \<Longrightarrow> remove_first_match fly_x fh flies = flies"
  by (induction flies) (simp_all add: remove_first_match_Cons)

lemma remove_first_match_first:
  "\<forall>fly \<in> set pre. \<not> matches fly_x fh fly \<Longrightarrow> matches fly_x fh fly' \<Longrightarrow>
   remove_first_match fly_x fh (pre @ fly' # post) = pre @ post"
  by (induction pre) (simp_all add: remove_first_match_Cons)

lemma py_index_bound: "py_index xs i = Some j \<Longrightarrow> j < length xs"
  by (auto simp: py_index_def Let_def split: if_splits)

lemma py_index_length: "length xs = length ys \<Longrightarrow> py_index xs i = py_index ys i"
  by (simp add: py_index_def)

lemma on_fly_selected_result:
  assumes "manual_selecting ui"
    and "py_index (tube_regions (detector ui)) tube_index = Some k"
    and "tube_regions (detector ui) ! k = Some r"
    and "py_index (results_or_fresh ui) tube_index = Some j"
  shows "on_fly_selected tube_index (fly_x, fly_y) ui =
           Inr (ui\<lparr> detector := (detector ui)
                      \<lparr>detection_results :=
                         Some ((results_or_fresh ui)
                                 [j := Some (flies_or_empty (results_or_fresh ui ! j) @
                                             [(fly_x, fly_y, click_height r fly_y)])])\<rparr>,
                    manual_selection_history :=
                      manual_selection_history ui @
                        [(tube_index, fly_x, fly_y, click_height r fly_y)] \<rparr>)"
  using assms
  by (cases r)
     (simp add: on_fly_selected_def results_or_fresh_def flies_or_empty_def click_height_def Let_def)

lemma undo_last_selection_result:
  assumes "manual_selection_history ui = hist @ [(tube_index, fly_x, fly_y, fh)]"
    and "detection_results (detector ui) = Some results"
    and "py_index results tube_index = Some j"
    and "results ! j = Some flies"
  shows "undo_last_selection ui =
           Inr (ui\<lparr> manual_selection_history := hist,
                    detector := (detector ui)
                      \<lparr>detection_results := Some (results[j := Some (remove_first_match fly_x fh flies)])\<rparr> \<rparr>,
                SelectionUndone)"
  using assms by (simp add: undo_last_selection_def Let_def)

lemmas sample_ui_defs =
  sample_ui_def sample_player_def sample_detector_def clicked_ui_def undone_ui_def
  clicked_empty_ui_def undone_empty_ui_def

text \<open>
  C7 (amended). In manual-selection mode, for a tube whose region is set: if no entry of
  the tube's current blob list lies within 5 pixels in \<open>x\<close> and within 3 pixels in height
  (both strictly) of the blob a click adds, then the click followed immediately by undo
  returns normally, leaves the tube's list with exactly the entries it had before (a list
  that was unset before is the empty list afterwards), leaves the lists of the other
  tubes as they were, and restores the edit stack. Undo pops the most recent edit and
  removes the first entry of that tube's list that lies within these tolerances of the
  popped edit; without such an entry the list is not modified. Undo on an empty edit
  stack changes nothing and reports that there is nothing to undo.
\<close>

theorem add_then_undo:
  "(manual_selecting ui \<longrightarrow>
    py_index (tube_regions (detector ui)) tube_index = Some k \<longrightarrow>
    tube_regions (detector ui) ! k = Some r \<longrightarrow>
    py_index (results_or_fresh ui) tube_index = Some j \<longrightarrow>
    (\<forall>fly \<in> set (flies_or_empty (results_or_fresh ui ! j)).
        \<not> matches fly_x (click_height r fly_y) fly) \<longrightarrow>
    (\<exists>ui1 ui2.
        on_fly_selected tube_index (fly_x, fly_y) ui = Inr ui1 \<and>
        current_flies ui1 j =
          Some (flies_or_empty (results_or_fresh ui ! j) @ [(fly_x, fly_y, click_height r fly_y)]) \<and>
        undo_last_selection ui1 = Inr (ui2, SelectionUndone) \<and>
        current_flies ui2 j = Some (flies_or_empty (results_or_fresh ui ! j)) \<and>
        (\<forall>i. i \<noteq> j \<longrightarrow> i < length (results_or_fresh ui) \<longrightarrow>
             current_flies ui2 i = results_or_fresh ui ! i) \<and>
        manual_selection_history ui2 = manual_selection_history ui)) \<and>
   (manual_selection_history ui = hist @ [(tube_index, fly_x, fly_y, fh)] \<longrightarrow>
    detection_results (detector ui) = Some results \<longrightarrow>
    py_index results tube_index = Some j \<longrightarrow>
    results ! j = Some flies \<longrightarrow>
    (\<exists>ui'. undo_last_selection ui = Inr (ui', SelectionUndone) \<and>
        manual_selection_history ui' = hist \<and>
        current_flies ui' j = Some (remove_first_match fly_x fh flies) \<and>
        ((\<forall>fly \<in> set flies. \<not> matches fly_x fh fly) \<longrightarrow>
           remove_first_match fly_x fh flies = flies) \<and>
        (\<forall>pre fly' post. flies = pre @ fly' # post \<longrightarrow>
           (\<forall>fly \<in> set pre. \<not> matches fly_x fh fly) \<longrightarrow> matches fly_x fh fly' \<longrightarrow>
           remove_first_match fly_x fh flies = pre @ post))) \<and>
   (manual_selection_history ui = [] \<longrightarrow> undo_last_selection ui = Inr (ui, NothingToUndo))"
proof (intro conjI impI)
  assume sel: "manual_selecting ui"
    and k: "py_index (tube_regions (detector ui)) tube_index = Some k"
    and r: "tube_regions (detector ui) ! k = Some r"
    and j: "py_index (results_or_fresh ui) tube_index = Some j"
    and nm: "\<forall>fly \<in> set (flies_or_empty (results_or_fresh ui ! j)).
               \<not> matches fly_x (click_height r fly_y) fly"
  let ?old = "flies_or_empty (results_or_fresh ui ! j)"
  let ?new = "(fly_x, fly_y, click_height r fly_y)"
  let ?res1 = "(results_or_fresh ui)[j := Some (?old @ [?new])]"
  let ?ui1 = "ui\<lparr> detector := (detector ui)\<lparr>detection_results := Some ?res1\<rparr>,
                   manual_selection_history :=
                     manual_selection_history ui @ [(tube_index, fly_x, fly_y, click_height r fly_y)] \<rparr>"
  have jb: "j < length (results_or_fresh ui)" using j by (rule py_index_bound)
  have add: "on_fly_selected tube_index (fly_x, fly_y) ui = Inr ?ui1"
    using sel k r j by (rule on_fly_selected_result)
  have j1: "py_index ?res1 tube_index = Some j"
    using j py_index_length [of ?res1 "results_or_fresh ui" tube_index] by simp
  have at1: "?res1 ! j = Some (?old @ [?new])" using jb by simp
  have rm: "remove_first_match fly_x (click_height r fly_y) (?old @ [?new]) = ?old"
    using remove_first_match_first [OF nm, of ?new "[]"] by (simp add: matches_def)
  let ?ui2 = "?ui1\<lparr> manual_selection_history := manual_selection_history ui,
                     detector := (detector ?ui1)
                       \<lparr>detection_results := Some (?res1[j := Some ?old])\<rparr> \<rparr>"
  have undo: "undo_last_selection ?ui1 = Inr (?ui2, SelectionUndone)"
    using undo_last_selection_result [of ?ui1 "manual_selection_history ui" tube_index fly_x fly_y
        "click_height r fly_y" ?res1 j "?old @ [?new]"] j1 at1 rm
    by simp
  have c1: "current_flies ?ui1 j = Some (?old @ [?new])"
    using jb by (simp add: current_flies_def)
  have c2: "current_flies ?ui2 j = Some ?old"
    using jb by (simp add: current_flies_def)
  have c3: "\<forall>i. i \<noteq> j \<longrightarrow> i < length (results_or_fresh ui) \<longrightarrow>
              current_flies ?ui2 i = results_or_fresh ui ! i"
    by (simp add: current_flies_def)
  have c4: "manual_selection_history ?ui2 = manual_selection_history ui" by simp
  show "\<exists>ui1 ui2.
        on_fly_selected tube_index (fly_x, fly_y) ui = Inr ui1 \<and>
        current_flies ui1 j = Some (?old @ [?new]) \<and>
        undo_last_selection ui1 = Inr (ui2, SelectionUndone) \<and>
        current_flies ui2 j = Some ?old \<and>
        (\<forall>i. i \<noteq> j \<longrightarrow> i < length (results_or_fresh ui) \<longrightarrow>
             current_flies ui2 i = results_or_fresh ui ! i) \<and>
        manual_selection_history ui2 = manual_selection_history ui"
    using add c1 undo c2 c3 c4 by blast
next
  assume h: "manual_selection_history ui = hist @ [(tube_index, fly_x, fly_y, fh)]"
    and res: "detection_results (detector ui) = Some results"
    and j: "py_index results tube_index = Some j"
    and fl: "results ! j = Some flies"
  have jb: "j < length results" using j by (rule py_index_bound)
  let ?ui' = "ui\<lparr> manual_selection_history := hist,
                   detector := (detector ui)
                     \<lparr>detection_results := Some (results[j := Some (remove_first_match fly_x fh flies)])\<rparr> \<rparr>"
  have u: "undo_last_selection ui = Inr (?ui', SelectionUndone)"
    using h res j fl by (rule undo_last_selection_result)
  have c: "current_flies ?ui' j = Some (remove_first_match fly_x fh flies)"
    using jb by (simp add: current_flies_def)
  show "\<exists>ui'. undo_last_selection ui = Inr (ui', SelectionUndone) \<and>
        manual_selection_history ui' = hist \<and>
        current_flies ui' j = Some (remove_first_match fly_x fh flies) \<and>
        ((\<forall>fly \<in> set flies. \<not> matches fly_x fh fly) \<longrightarrow>
           remove_first_match fly_x fh flies = flies) \<and>
        (\<forall>pre fly' post. flies = pre @ fly' # post \<longrightarrow>
           (\<forall>fly \<in> set pre. \<not> matches fly_x fh fly) \<longrightarrow> matches fly_x fh fly' \<longrightarrow>
           remove_first_match fly_x fh flies = pre @ post)"
    using u c remove_first_match_none [of flies fly_x fh] remove_first_match_first [of _ fly_x fh]
    by (intro exI [of _ ?ui']) auto
next
  assume "manual_selection_history ui = []"
  then show "undo_last_selection ui = Inr (ui, NothingToUndo)"
    by (simp add: undo_last_selection_def)
qed

theorem add_then_undo_witness:
  "manual_selecting sample_ui \<and>
   py_index (tube_regions (detector sample_ui)) 0 = Some 0 \<and>
   tube_regions (detector sample_ui) ! 0 = Some (100, 50, 100, 300) \<and>
   py_index (results_or_fresh sample_ui) 0 = Some 0 \<and>
   flies_or_empty (results_or_fresh sample_ui ! 0) = [(150, 295, 55)] \<and>
   click_height (100, 50, 100, 300) 200 = 150 \<and>
   \<not> matches 125 150 (150, 295, 55) \<and>
   (\<exists>ui1 ui2.
      on_fly_selected 0 (125, 200) sample_ui = Inr ui1 \<and>
      current_flies ui1 0 = Some [(150, 295, 55), (125, 200, 150)] \<and>
      undo_last_selection ui1 = Inr (ui2, SelectionUndone) \<and>
      current_flies ui2 0 = Some [(150, 295, 55)] \<and>
      manual_selection_history ui2 = manual_selection_history sample_ui) \<and>
   manual_selection_history clicked_ui = [] @ [(0, 152, 296, 54)] \<and>
   matches 152 54 (150, 295, 55) \<and>
   (\<exists>ui'. undo_last_selection clicked_ui = Inr (ui', SelectionUndone) \<and>
      manual_selection_history ui' = [] \<and>
      current_flies ui' 0 = Some (remove_first_match 152 54 [(150, 295, 55), (152, 296, 54)]) \<and>
      remove_first_match 152 54 [(150, 295, 55), (152, 296, 54)] = [] @ [(152, 296, 54)]) \<and>
   manual_selection_history sample_ui = [] \<and>
   undo_last_selection sample_ui = Inr (sample_ui, NothingToUndo)"
proof -
  have h1: "manual_selecting sample_ui"
    "py_index (tube_regions (detector sample_ui)) 0 = Some 0"
    "tube_regions (detector sample_ui) ! 0 = Some (100, 50, 100, 300)"
    "py_index (results_or_fresh sample_ui) 0 = Some 0"
    by (simp_all add: sample_ui_defs py_index_def results_or_fresh_def)
  have old: "flies_or_empty (results_or_fresh sample_ui ! 0) = [(150, 295, 55)]"
    by (simp add: sample_ui_defs results_or_fresh_def flies_or_empty_def)
  have ch: "click_height (100, 50, 100, 300) 200 = 150"
    by (simp add: click_height_def)
  have nm: "\<not> matches 125 150 (150, 295, 55)"
    by (simp add: matches_def)
  have h1e: "\<forall>fly \<in> set (flies_or_empty (results_or_fresh sample_ui ! 0)).
               \<not> matches 125 (click_height (100, 50, 100, 300) 200) fly"
    using old ch nm by simp
  have h2: "manual_selection_history clicked_ui = [] @ [(0, 152, 296, 54)]"
    "detection_results (detector clicked_ui) = Some [Some [(150, 295, 55), (152, 296, 54)], None]"
    "py_index [Some [(150, 295, 55), (152, 296, 54)], None :: fly list option] 0 = Some 0"
    "[Some [(150, 295, 55), (152, 296, 54)], None :: fly list option] ! 0 =
       Some [(150, 295, 55), (152, 296, 54)]"
    by (simp_all add: sample_ui_defs py_index_def)
  have m: "matches 152 54 (150, 295, 55)"
    by (simp add: matches_def)
  have h3: "manual_selection_history sample_ui = []"
    by (simp add: sample_ui_defs)
  note t1 = add_then_undo [where ui = sample_ui and tube_index = 0 and k = 0 and j = 0
      and r = "(100, 50, 100, 300)" and fly_x = 125 and fly_y = 200, THEN conjunct1,
      THEN mp, THEN mp, THEN mp, THEN mp, THEN mp, OF h1 h1e]
  note t2 = add_then_undo [where ui = clicked_ui and tube_index = 0 and j = 0
      and hist = "[]" and fly_x = 152 and fly_y = 296 and fh = 54
      and results = "[Some [(150, 295, 55), (152, 296, 54)], None]"
      and flies = "[(150, 295, 55), (152, 296, 54)]",
      THEN conjunct2, THEN conjunct1, THEN mp, THEN mp, THEN mp, THEN mp, OF h2]
  note t3 = add_then_undo [where ui = sample_ui, THEN conjunct2, THEN conjunct2, THEN mp, OF h3]
  from t1 old ch have c1: "\<exists>ui1 ui2.
      on_fly_selected 0 (125, 200) sample_ui = Inr ui1 \<and>
      current_flies ui1 0 = Some [(150, 295, 55), (125, 200, 150)] \<and>
      undo_last_selection ui1 = Inr (ui2, SelectionUndone) \<and>
      current_flies ui2 0 = Some [(150, 295, 55)] \<and>
      manual_selection_history ui2 = manual_selection_history sample_ui"
    by auto
  from t2 m have c2: "\<exists>ui'. undo_last_selection clicked_ui = Inr (ui', SelectionUndone) \<and>
      manual_selection_history ui' = [] \<and>
      current_flies ui' 0 = Some (remove_first_match 152 54 [(150, 295, 55), (152, 296, 54)]) \<and>
      remove_first_match 152 54 [(150, 295, 55), (152, 296, 54)] = [] @ [(152, 296, 54)]"
    by (auto simp: matches_def)
  show ?thesis
    using h1 old ch nm c1 h2(1) m c2 h3 t3 by simp
qed

text \<open>
  The claim as worded restores the list for every prior state. With the fly
  \<open>(150, 295, 55)\<close> already in tube 0, a click at \<open>(152, 296)\<close> adds \<open>(152, 296, 54)\<close>;
  undo removes the earlier fly, which is the first within the tolerances, and the added
  one stays. In tube 1, whose list was unset, click and undo leave the empty list.
\<close>

theorem add_then_undo_counterexample:
  "current_flies sample_ui 0 = Some [(150, 295, 55)] \<and>
   on_fly_selected 0 (152, 296) sample_ui = Inr clicked_ui \<and>
   undo_last_selection clicked_ui = Inr (undone_ui, SelectionUndone) \<and>
   current_flies undone_ui 0 = Some [(152, 296, 54)] \<and>
   current_flies sample_ui 1 = None \<and>
   on_fly_selected 1 (250, 100) sample_ui = Inr clicked_empty_ui \<and>
   undo_last_selection clicked_empty_ui = Inr (undone_empty_ui, SelectionUndone) \<and>
   current_flies undone_empty_ui 1 = Some []"
  by (simp add: sample_ui_defs current_flies_def on_fly_selected_def undo_last_selection_def
      py_index_def Let_def)

subsection \<open>Sharpest frame and its neighbours\<close>

lemma py_sort_desc_head:
  fixes f :: "'a \<Rightarrow> 'k::linorder"
  assumes "py_sort_desc f xs = e # rest"
  shows "\<exists>pre post. xs = pre @ e # post \<and> (\<forall>x \<in> set pre. f x < f e) \<and>
           (\<forall>x \<in> set post. f x \<le> f e)"
proof -
  have srt: "sorted (rev (map f (py_sort_desc f xs)))"
    by (simp add: py_sort_desc_def rev_map)
  have "set (py_sort_desc f xs) = set xs"
    by (simp add: py_sort_desc_def)
  with assms have set: "set xs = insert e (set rest)" by simp
  from srt assms have "\<forall>x \<in> set rest. f x \<le> f e"
    by (auto simp: sorted_append)
  with set have le: "\<forall>x \<in> set xs. f x \<le> f e" by auto
  have "filter (\<lambda>y. f y = f e) (py_sort_desc f xs) = filter (\<lambda>y. f y = f e) xs"
    by (simp add: py_sort_desc_def sort_key_stable flip: rev_filter)
  with assms have "filter (\<lambda>y. f y = f e) xs = e # filter (\<lambda>y. f y = f e) rest"
    by simp
  then obtain pre post where
    xs: "xs = pre @ e # post" and pre: "\<forall>u \<in> set pre. f u \<noteq> f e"
    by (auto simp: filter_eq_Cons_iff)
  have "\<forall>x \<in> set pre. f x < f e"
    using pre le xs by (auto simp: order.strict_iff_order)
  moreover have "\<forall>x \<in> set post. f x \<le> f e"
    using le xs by auto
  ultimately show ?thesis using xs by blast
qed

lemma scan_frames_numbers:
  "fs_frame_number ` set (snd (scan_frames rd sharp ns p acc)) \<subseteq>
     fs_frame_number ` set acc \<union> set ns"
proof (induction ns arbitrary: p acc)
  case Nil
  then show ?case by simp
next
  case (Cons n ns)
  show ?case
  proof (cases "get_current_frame (fst (seek_frame rd n p))")
    case None
    then show ?thesis using Cons.IH [of "fst (seek_frame rd n p)" acc]
      by (auto simp: Let_def)
  next
    case (Some frame)
    then show ?thesis
      using Cons.IH [of "fst (seek_frame rd n p)" "acc @ [FrameScore frame n (sharp frame)]"]
      by (auto simp: Let_def)
  qed
qed

lemma scanned_frames_in_window:
  "e \<in> set (scanned_frames rd sharp ui) \<Longrightarrow>
     window_start ui \<le> fs_frame_number e \<and> fs_frame_number e \<le> window_end ui"
  using scan_frames_numbers [of rd sharp "[window_start ui .. window_end ui]" "video_player ui" "[]"]
  by (auto simp: scanned_frames_def)

lemma found_numbers:
  "map fs_frame_number
     (List.map_filter (\<lambda>n. find (\<lambda>item. fs_frame_number item = n) xs) ns) =
   filter (\<lambda>n. n \<in> fs_frame_number ` set xs) ns"
proof (induction ns)
  case Nil
  then show ?case by (simp add: List.map_filter_simps)
next
  case (Cons n ns)
  show ?case
  proof (cases "find (\<lambda>item. fs_frame_number item = n) xs")
    case None
    then have "n \<notin> fs_frame_number ` set xs"
      by (auto simp: find_None_iff)
    with None Cons show ?thesis by (simp add: List.map_filter_simps)
  next
    case (Some e)
    then have "fs_frame_number e = n" "e \<in> set xs"
      by (auto simp: find_Some_iff)
    with Some Cons show ?thesis by (auto simp: List.map_filter_simps)
  qed
qed

lemma found_subset:
  "set (List.map_filter (\<lambda>n. find (P n) xs) ns) \<subseteq> set xs"
proof (induction ns)
  case Nil
  then show ?case by (simp add: List.map_filter_simps)
next
  case (Cons n ns)
  show ?case
  proof (cases "find (P n) xs")
    case None
    with Cons show ?thesis by (simp add: List.map_filter_simps)
  next
    case (Some e)
    then have "e \<in> set xs" by (auto simp: find_Some_iff)
    with Some Cons show ?thesis by (simp add: List.map_filter_simps)
  qed
qed

lemma choose_frame_numbers_sorted:
  "start \<le> s \<Longrightarrow> s \<le> e \<Longrightarrow> sorted (choose_frame_numbers start e s)"
  by (auto simp: choose_frame_numbers_def Let_def)

lemma choose_frame_numbers_length: "length (choose_frame_numbers start e s) = 3"
  by (simp add: choose_frame_numbers_def Let_def)

lemma choose_frame_numbers_contains: "s \<in> set (choose_frame_numbers start e s)"
  by (simp add: choose_frame_numbers_def Let_def)

lemma choose_frame_numbers_three:
  "start \<le> s \<Longrightarrow> s \<le> e \<Longrightarrow> e - start \<ge> 2 \<Longrightarrow>
     distinct (choose_frame_numbers start e s) \<and>
     set (choose_frame_numbers start e s) \<subseteq> {start .. e}"
  by (auto simp: choose_frame_numbers_def Let_def)

text \<open>
  The ranker returns exactly when at least one frame was scanned, and every frame number
  of the window is scanned when the player already holds an image.
\<close>

lemma seek_frame_keeps_image:
  "current_frame_image p \<noteq> None \<Longrightarrow> current_frame_image (fst (seek_frame rd n p)) \<noteq> None"
  by (simp add: seek_frame_def Let_def split: option.splits)

lemma scan_frames_all:
  "current_frame_image p \<noteq> None \<Longrightarrow>
   map fs_frame_number (snd (scan_frames rd sharp ns p acc)) = map fs_frame_number acc @ ns"
proof (induction ns arbitrary: p acc)
  case Nil
  then show ?case by simp
next
  case (Cons n ns)
  let ?p = "fst (seek_frame rd n p)"
  from Cons.prems have img: "current_frame_image ?p \<noteq> None"
    by (rule seek_frame_keeps_image)
  then obtain frame where "get_current_frame ?p = Some frame"
    by (auto simp: get_current_frame_def)
  with Cons.IH [OF img] show ?case by (simp add: Let_def)
qed

lemma scanned_frames_all:
  "current_frame_image (video_player ui) \<noteq> None \<Longrightarrow>
   map fs_frame_number (scanned_frames rd sharp ui) = [window_start ui .. window_end ui]"
  using scan_frames_all [of "video_player ui" rd sharp "[window_start ui .. window_end ui]" "[]"]
  by (simp add: scanned_frames_def)

lemma get_top_3_returns:
  "scanned_frames rd sharp ui \<noteq> [] \<Longrightarrow>
   \<exists>ui' imgs nums scores. get_top_3_sharpest_frames rd sharp ui = Inr (ui', imgs, nums, scores)"
proof -
  assume ne: "scanned_frames rd sharp ui \<noteq> []"
  obtain p where scan: "scan_frames rd sharp [window_start ui .. window_end ui] (video_player ui) [] =
      (p, scanned_frames rd sharp ui)"
    by (cases "scan_frames rd sharp [window_start ui .. window_end ui] (video_player ui) []")
       (simp add: scanned_frames_def)
  have "length (py_sort_desc fs_sharpness_score (scanned_frames rd sharp ui)) =
          length (scanned_frames rd sharp ui)"
    by (simp add: py_sort_desc_def)
  with ne have "py_sort_desc fs_sharpness_score (scanned_frames rd sharp ui) \<noteq> []"
    by auto
  then obtain e rest where "py_sort_desc fs_sharpness_score (scanned_frames rd sharp ui) = e # rest"
    by (cases "py_sort_desc fs_sharpness_score (scanned_frames rd sharp ui)") simp_all
  with scan show ?thesis
    by (simp add: get_top_3_sharpest_frames_def Let_def)
qed

lemma get_top_3_raises:
  "scanned_frames rd sharp ui = [] \<Longrightarrow> get_top_3_sharpest_frames rd sharp ui = Inl IndexError"
proof -
  assume e: "scanned_frames rd sharp ui = []"
  obtain p where scan: "scan_frames rd sharp [window_start ui .. window_end ui] (video_player ui) [] =
      (p, scanned_frames rd sharp ui)"
    by (cases "scan_frames rd sharp [window_start ui .. window_end ui] (video_player ui) []")
       (simp add: scanned_frames_def)
  with e show ?thesis
    by (simp add: get_top_3_sharpest_frames_def Let_def py_sort_desc_def)
qed

text \<open>Evaluation of the sample video.\<close>

lemmas frames_ui_defs =
  frames_ui_def frames_player_def unread_ui_def read_all_def read_but_first_def
  table_sharpness_def window_start_def window_end_def

lemma upto_0_4: "[0..4] = [0, 1, 2, 3, 4]"
  by (simp add: upto_rec1)

lemma frames_ui_scanned:
  "scanned_frames read_all (table_sharpness [9, 3, 9, 1, 2]) frames_ui =
     [FrameScore 0 0 9, FrameScore 1 1 3, FrameScore 2 2 9, FrameScore 3 3 1, FrameScore 4 4 2]"
  by (simp add: scanned_frames_def frames_ui_defs upto_0_4 seek_frame_def get_current_frame_def
      Let_def)

lemma frames_ui_top_3:
  "get_top_3_sharpest_frames read_all (table_sharpness [9, 3, 9, 1, 2]) frames_ui =
     Inr (frames_ui, [0, 1, 2], [0, 1, 2], [9, 3, 9])"
  by (simp add: get_top_3_sharpest_frames_def frames_ui_defs upto_0_4 seek_frame_def
      get_current_frame_def py_sort_desc_def choose_frame_numbers_def List.map_filter_simps Let_def)

text \<open>
  C6 (amended). When the ranker returns, the frame it selects is the first frame in scan
  order with the maximum sharpness score: every frame scanned before it has a strictly
  smaller score and every frame scanned after it has a score not larger. The output is
  the list of the three frame numbers chosen around the selected one, restricted to the
  scanned frames, each with the image and the score of a scanned frame: at most three
  triples in ascending order of frame number, the selected frame among them. Whenever the
  window spans at least three frame numbers and every frame number of the window was
  scanned, the output consists of three distinct frame numbers of the window, also when
  the selected frame lies at a boundary of the window.
\<close>

theorem sharpest_frame_selection:
  assumes "get_top_3_sharpest_frames rd sharp ui = Inr (ui', imgs, nums, scores)"
  shows "\<exists>pre e post found.
           scanned_frames rd sharp ui = pre @ e # post \<and>
           (\<forall>x \<in> set pre. fs_sharpness_score x < fs_sharpness_score e) \<and>
           (\<forall>x \<in> set post. fs_sharpness_score x \<le> fs_sharpness_score e) \<and>
           nums = filter (\<lambda>n. n \<in> fs_frame_number ` set (scanned_frames rd sharp ui))
                    (choose_frame_numbers (window_start ui) (window_end ui) (fs_frame_number e)) \<and>
           fs_frame_number e \<in> set nums \<and>
           set found \<subseteq> set (scanned_frames rd sharp ui) \<and>
           imgs = map fs_frame found \<and> nums = map fs_frame_number found \<and>
           scores = map fs_sharpness_score found \<and>
           length nums \<le> 3 \<and> sorted nums \<and>
           (window_end ui - window_start ui \<ge> 2 \<and>
            map fs_frame_number (scanned_frames rd sharp ui) = [window_start ui .. window_end ui] \<longrightarrow>
              length nums = 3 \<and> distinct nums \<and> set nums \<subseteq> {window_start ui .. window_end ui})"
proof -
  let ?S = "window_start ui" and ?E = "window_end ui"
  let ?fs = "scanned_frames rd sharp ui"
  let ?sorted = "py_sort_desc fs_sharpness_score ?fs"
  obtain p where scan: "scan_frames rd sharp [?S .. ?E] (video_player ui) [] = (p, ?fs)"
    by (cases "scan_frames rd sharp [?S .. ?E] (video_player ui) []") (simp add: scanned_frames_def)
  from assms scan obtain e rest where
    hd: "?sorted = e # rest"
    by (auto simp: get_top_3_sharpest_frames_def Let_def split: list.splits)
  let ?chosen = "choose_frame_numbers ?S ?E (fs_frame_number e)"
  let ?found = "List.map_filter (\<lambda>n. find (\<lambda>item. fs_frame_number item = n) ?sorted) ?chosen"
  from assms scan hd have out: "imgs = map fs_frame ?found" "nums = map fs_frame_number ?found"
    "scores = map fs_sharpness_score ?found"
    by (simp_all add: get_top_3_sharpest_frames_def Let_def)
  have set_sorted: "set ?sorted = set ?fs"
    by (simp add: py_sort_desc_def)
  from py_sort_desc_head [OF hd] obtain pre post where
    split: "?fs = pre @ e # post"
      "\<forall>x \<in> set pre. fs_sharpness_score x < fs_sharpness_score e"
      "\<forall>x \<in> set post. fs_sharpness_score x \<le> fs_sharpness_score e"
    by blast
  have e_in: "e \<in> set ?fs" using split(1) by simp
  have nums: "nums = filter (\<lambda>n. n \<in> fs_frame_number ` set ?fs) ?chosen"
    using out(2) found_numbers [of ?sorted ?chosen] set_sorted by simp
  have s_in: "fs_frame_number e \<in> set nums"
    using nums e_in choose_frame_numbers_contains [of "fs_frame_number e" ?S ?E] by simp
  have sub: "set ?found \<subseteq> set ?fs"
    using found_subset [of "\<lambda>n item. fs_frame_number item = n" ?sorted ?chosen] set_sorted by simp
  have len: "length nums \<le> 3"
    unfolding nums using length_filter_le [of _ ?chosen] choose_frame_numbers_length [of ?S ?E]
    by metis
  note win = scanned_frames_in_window [OF e_in]
  have srt: "sorted nums"
    unfolding nums using win by (intro sorted_wrt_filter choose_frame_numbers_sorted) simp_all
  have three: "length nums = 3 \<and> distinct nums \<and> set nums \<subseteq> {?S .. ?E}"
    if "?E - ?S \<ge> 2" "map fs_frame_number ?fs = [?S .. ?E]"
  proof -
    have "fs_frame_number ` set ?fs = {?S .. ?E}"
      using that(2) by (metis set_map set_upto)
    moreover note c = choose_frame_numbers_three [OF win [THEN conjunct1] win [THEN conjunct2] that(1)]
    ultimately have "nums = ?chosen"
      unfolding nums using c by (intro filter_True) auto
    with c choose_frame_numbers_length [of ?S ?E] show ?thesis by simp
  qed
  show ?thesis
    using split nums s_in sub out len srt three by blast
qed

theorem sharpest_frame_selection_witness:
  "get_top_3_sharpest_frames read_all (table_sharpness [9, 3, 9, 1, 2]) frames_ui =
     Inr (frames_ui, [0, 1, 2], [0, 1, 2], [9, 3, 9]) \<and>
   window_end frames_ui - window_start frames_ui \<ge> 2 \<and>
   map fs_frame_number (scanned_frames read_all (table_sharpness [9, 3, 9, 1, 2]) frames_ui) =
     [window_start frames_ui .. window_end frames_ui] \<and>
   (\<exists>pre e post.
      scanned_frames read_all (table_sharpness [9, 3, 9, 1, 2]) frames_ui = pre @ e # post \<and>
      (\<forall>x \<in> set pre. fs_sharpness_score x < fs_sharpness_score e) \<and>
      (\<forall>x \<in> set post. fs_sharpness_score x \<le> fs_sharpness_score e) \<and>
      fs_frame_number e \<in> set [0, 1, 2]) \<and>
   sorted [0, 1, 2 :: int] \<and> length [0, 1, 2 :: int] = 3 \<and> distinct [0, 1, 2 :: int] \<and>
   set [0, 1, 2] \<subseteq> {window_start frames_ui .. window_end frames_ui}"
proof -
  have w: "window_end frames_ui - window_start frames_ui \<ge> 2"
    by (simp add: frames_ui_defs)
  have a: "map fs_frame_number (scanned_frames read_all (table_sharpness [9, 3, 9, 1, 2]) frames_ui) =
     [window_start frames_ui .. window_end frames_ui]"
    by (simp add: frames_ui_scanned) (simp add: frames_ui_defs upto_0_4)
  from sharpest_frame_selection [OF frames_ui_top_3] w a
  have "(\<exists>pre e post.
      scanned_frames read_all (table_sharpness [9, 3, 9, 1, 2]) frames_ui = pre @ e # post \<and>
      (\<forall>x \<in> set pre. fs_sharpness_score x < fs_sharpness_score e) \<and>
      (\<forall>x \<in> set post. fs_sharpness_score x \<le> fs_sharpness_score e) \<and>
      fs_frame_number e \<in> set [0, 1, 2]) \<and>
   sorted [0, 1, 2 :: int] \<and> length [0, 1, 2 :: int] = 3 \<and> distinct [0, 1, 2 :: int] \<and>
   set [0, 1, 2] \<subseteq> {window_start frames_ui .. window_end frames_ui}"
    by blast
  with frames_ui_top_3 w a show ?thesis by blast
qed

text \<open>
  The claim as worded asks for three distinct frames whenever the window holds three.
  A player without an image and a reader failing on frame 0: the window is 0 to 4, the
  frames 1 to 4 are scanned, frame 1 is the sharpest, its predecessor 0 was not scanned
  and is left out, and two frames are returned.
\<close>

theorem unscanned_neighbour_counterexample:
  "get_top_3_sharpest_frames read_but_first (table_sharpness [3, 9, 9, 1, 2]) unread_ui =
     Inr (unread_ui\<lparr>video_player :=
                      frames_player\<lparr>current_frame := 1, current_frame_image := Some 1\<rparr>\<rparr>,
          [1, 2], [1, 2], [9, 9]) \<and>
   window_start unread_ui = 0 \<and> window_end unread_ui = 4 \<and>
   map fs_frame_number
     (scanned_frames read_but_first (table_sharpness [3, 9, 9, 1, 2]) unread_ui) = [1, 2, 3, 4]"
  by (simp add: get_top_3_sharpest_frames_def scanned_frames_def frames_ui_defs upto_0_4 seek_frame_def
      get_current_frame_def py_sort_desc_def choose_frame_numbers_def List.map_filter_simps Let_def)

end
